theory Spec2Isabelle
  imports Complex_Main "HOL-Library.AList" "HOL-Library.Char_ord" "HOL-Library.List_Lexorder"
begin

chapter \<open>The embedding\<close>

section \<open>Numbers and samples\<close>

text \<open>
  The statistics of \<^verbatim>\<open>utils/stockUtils\<close> work on JavaScript numbers. Their
  first embedding is over the real numbers: \<open>+\<close>, \<open>-\<close>, \<open>*\<close>, \<open>/\<close> and
  \<^verbatim>\<open>Math.sqrt\<close> are the exact operations. Every division of the source stands
  behind a guard that excludes a zero divisor, so HOL's \<open>x / 0 = 0\<close> is never used.
  The section on binary64 arithmetic embeds the correlation a second time, with every
  operation rounded as IEEE 754 prescribes; it decides the properties that depend on
  rounding.

  A \<^verbatim>\<open>StockPrice\<close> is the interface of \<^verbatim>\<open>types/stock\<close>; the time stamp is a
  string.
\<close>

record StockPrice =
  ticker :: string
  price :: real
  timestamp :: string

section \<open>Exceptions and loops\<close>

text \<open>
  Two exceptions can arise in the code below: a \<^verbatim>\<open>TypeError\<close> from reading a
  property of \<^verbatim>\<open>undefined\<close>, and the \<^verbatim>\<open>RangeError\<close> that
  \<^verbatim>\<open>toISOString\<close> throws on an invalid date.

  \<^verbatim>\<open>xs.forEach(callback)\<close> with a callback that updates a variable of the enclosing
  function: the state is threaded through the calls, and an exception ends the loop.
\<close>

datatype error = TypeError | RangeError

fun forEach :: "('s \<Rightarrow> 'a \<Rightarrow> error + 's) \<Rightarrow> 'a list \<Rightarrow> 's \<Rightarrow> error + 's" where
  "forEach f [] s = Inr s"
| "forEach f (x # xs) s = (case f s x of Inl e \<Rightarrow> Inl e | Inr s' \<Rightarrow> forEach f xs s')"

section \<open>Descriptive statistics\<close>

text \<open>
  \<^verbatim>\<open>calculateAverage\<close>: \<^verbatim>\<open>prices.reduce((acc, price) => acc + price, 0)\<close>
  is a left fold from \<open>0\<close>.
\<close>

definition calculateAverage :: "real list \<Rightarrow> real" where
  "calculateAverage prices =
     (if length prices = 0 then 0
      else let sum = foldl (\<lambda>acc p. acc + p) 0 prices
           in sum / real (length prices))"

text \<open>\<^verbatim>\<open>calculateStandardDeviation\<close>; \<^verbatim>\<open>Math.pow(d, 2)\<close> is \<open>d\<^sup>2\<close>.\<close>

definition calculateStandardDeviation :: "real list \<Rightarrow> real" where
  "calculateStandardDeviation prices =
     (if length prices = 0 then 0
      else let avg = calculateAverage prices;
               squareDiffs = map (\<lambda>p. (p - avg)\<^sup>2) prices;
               avgSquareDiff = calculateAverage squareDiffs
           in sqrt avgSquareDiff)"

section \<open>Pearson correlation\<close>

text \<open>
  The accumulation loop of \<^verbatim>\<open>calculateCorrelation\<close>
  (\<^verbatim>\<open>for (let i = 0; i < n; i++)\<close>), as a fold over the indices \<open>0, ..., n - 1\<close>
  with the three accumulators as the state. It is only called with
  \<open>n = length prices1 = length prices2\<close>, so every read is in range.
\<close>

definition correlationSums ::
  "real list \<Rightarrow> real list \<Rightarrow> real \<Rightarrow> real \<Rightarrow> nat \<Rightarrow> real \<times> real \<times> real" where
  "correlationSums prices1 prices2 avg1 avg2 n =
     foldl (\<lambda>(covariance, variance1, variance2) i.
              let diff1 = prices1 ! i - avg1;
                  diff2 = prices2 ! i - avg2
              in (covariance + diff1 * diff2,
                  variance1 + diff1 * diff1,
                  variance2 + diff2 * diff2))
           (0, 0, 0) [0..<n]"

text \<open>
  \<^verbatim>\<open>calculateCorrelation\<close>. The two \<^verbatim>\<open>||\<close> guards are written as the
  nested tests that short-circuit evaluation performs. The quotient is returned as it is.
\<close>

definition calculateCorrelation :: "real list \<Rightarrow> real list \<Rightarrow> real" where
  "calculateCorrelation prices1 prices2 =
     (if length prices1 \<noteq> length prices2 then 0
      else if length prices1 = 0 then 0
      else let n = length prices1;
               avg1 = calculateAverage prices1;
               avg2 = calculateAverage prices2;
               (covariance, variance1, variance2) =
                 correlationSums prices1 prices2 avg1 avg2 n
           in if variance1 = 0 then 0
              else if variance2 = 0 then 0
              else covariance / (sqrt variance1 * sqrt variance2))"

text \<open>
  The correlation that the component \<^verbatim>\<open>CorrelationHeatmap\<close> computes inline for
  two price arrays already cut to the same non-zero length: the same sums, the guard
  \<^verbatim>\<open>variance1 > 0 && variance2 > 0\<close>, and then
  \<^verbatim>\<open>Math.max(-1, Math.min(1, correlation))\<close>.
\<close>

definition heatmapCorrelation :: "real list \<Rightarrow> real list \<Rightarrow> real" where
  "heatmapCorrelation alignedPrices1 alignedPrices2 =
     (let n = length alignedPrices1;
          avg1 = calculateAverage alignedPrices1;
          avg2 = calculateAverage alignedPrices2;
          (covariance, variance1, variance2) =
            correlationSums alignedPrices1 alignedPrices2 avg1 avg2 n;
          correlation =
            (if variance1 > 0 \<and> variance2 > 0
             then covariance / (sqrt variance1 * sqrt variance2) else 0)
      in max (- 1) (min 1 correlation))"

section \<open>Alignment by time stamp\<close>

text \<open>
  The class \<^verbatim>\<open>Date\<close> belongs to the JavaScript engine, and the time zone to the
  machine the code runs on. Neither is part of the repository; both are parameters of the
  embedding, with the meaning ECMAScript gives them.
  \<^item> \<open>parseDate s\<close> is the time value of \<^verbatim>\<open>new Date(s)\<close>, in milliseconds since
    the epoch, and \<open>None\<close> when \<open>s\<close> is no date (\<^verbatim>\<open>Invalid Date\<close>).
  \<^item> \<open>localTZA t isUTC\<close> is the offset of local time from UTC in milliseconds.
    \<open>localTZA t True\<close> is the offset in force at the instant \<open>t\<close>, so that
    \<open>t + localTZA t True\<close> is the local time of \<open>t\<close>. \<open>localTZA r False\<close> is the
    offset under which the local time \<open>r\<close> is read, so that \<open>r - localTZA r False\<close> is
    the instant of \<open>r\<close>; a local time that a clock change repeats is read as its first
    occurrence.
\<close>

record environment =
  parseDate :: "string \<Rightarrow> int option"
  localTZA :: "int \<Rightarrow> bool \<Rightarrow> int"

text \<open>
  The key that the two callbacks of \<^verbatim>\<open>alignPricesByTimestamp\<close> compute.
  \<^verbatim>\<open>date.getFullYear()\<close>, ..., \<^verbatim>\<open>date.getMinutes()\<close> are fields of the local
  time of \<^verbatim>\<open>date\<close>. \<^verbatim>\<open>new Date(y, m, d, h, min, 0, 0)\<close> puts them together
  again with seconds and milliseconds \<open>0\<close>, which is the local time rounded down to a
  multiple of \<open>60000\<close> ms, and reads the result as a local time.
  \<^verbatim>\<open>toISOString\<close> names instants one to one, so the instant itself serves as the
  key. On an invalid date every field is \<^verbatim>\<open>NaN\<close>, the date built from them is
  invalid, and \<^verbatim>\<open>toISOString\<close> throws a \<^verbatim>\<open>RangeError\<close>.

  Two corners of \<^verbatim>\<open>Date\<close> are outside this definition: for the years 0 to 99 the
  constructor adds 1900 to the year, and within a day of the two ends of the range of
  time values (275760 years from the epoch) the rebuilt date can be invalid.
\<close>

definition roundedTime :: "environment \<Rightarrow> string \<Rightarrow> error + int" where
  "roundedTime env ts =
     (case parseDate env ts of
        None \<Rightarrow> Inl RangeError
      | Some t \<Rightarrow>
          let localTime = t + localTZA env t True;
              rounded = localTime - localTime mod 60000
          in Inr (rounded - localTZA env rounded False))"

text \<open>
  A JavaScript \<^verbatim>\<open>Map\<close> iterates in the order in which its keys were first set;
  \<^verbatim>\<open>set\<close> on a key that is present replaces the value in place. This is an
  association list under \<^const>\<open>AList.update\<close>; \<^verbatim>\<open>get\<close> is \<^const>\<open>map_of\<close>,
  \<^verbatim>\<open>keys()\<close> is \<open>map fst\<close>. \<open>timeMapOf\<close> is one of the two loops that fill
  \<^verbatim>\<open>timeMap1\<close> and \<^verbatim>\<open>timeMap2\<close>.
\<close>

definition timeMapOf :: "environment \<Rightarrow> StockPrice list \<Rightarrow> error + (int \<times> real) list" where
  "timeMapOf env prices =
     forEach (\<lambda>timeMap item.
                case roundedTime env (timestamp item) of
                  Inl e \<Rightarrow> Inl e
                | Inr key \<Rightarrow> Inr (AList.update key (price item) timeMap))
             prices []"

record AlignedPrice =
  price1 :: real
  price2 :: real

text \<open>
  \<^verbatim>\<open>alignPricesByTimestamp\<close>. The non-null assertions
  \<^verbatim>\<open>timeMap1.get(timestamp)!\<close> are \<^const>\<open>the\<close>; lemma
  \<open>alignPricesByTimestamp_join\<close> below shows that both lookups succeed wherever the
  loop performs them.
\<close>

definition alignPricesByTimestamp ::
  "environment \<Rightarrow> StockPrice list \<Rightarrow> StockPrice list \<Rightarrow> error + AlignedPrice list" where
  "alignPricesByTimestamp env prices1 prices2 =
     (case timeMapOf env prices1 of
        Inl e \<Rightarrow> Inl e
      | Inr timeMap1 \<Rightarrow>
          (case timeMapOf env prices2 of
             Inl e \<Rightarrow> Inl e
           | Inr timeMap2 \<Rightarrow>
               let timestamps1 = map fst timeMap1
               in Inr (foldl (\<lambda>alignedPrices ts.
                                if map_of timeMap2 ts \<noteq> None
                                then alignedPrices @
                                       [\<lparr>price1 = the (map_of timeMap1 ts),
                                         price2 = the (map_of timeMap2 ts)\<rparr>]
                                else alignedPrices)
                             [] timestamps1)))"

section \<open>The correlation matrix\<close>

text \<open>
  \<^verbatim>\<open>Record<string, StockPrice[]>\<close> is an association list in the order of
  \<^verbatim>\<open>Object.keys\<close>; the matrix \<^verbatim>\<open>Record<string, Record<string, number>>\<close>
  is a map of rows. Assigning to a cell of a row that does not exist, or calling
  \<^verbatim>\<open>.map\<close> on a series that does not exist, throws a \<^verbatim>\<open>TypeError\<close>.
\<close>

type_synonym matrix = "string \<rightharpoonup> (string \<rightharpoonup> real)"

definition setCell :: "matrix \<Rightarrow> string \<Rightarrow> string \<Rightarrow> real \<Rightarrow> error + matrix" where
  "setCell m t1 t2 v =
     (case m t1 of None \<Rightarrow> Inl TypeError | Some row \<Rightarrow> Inr (m(t1 \<mapsto> row(t2 \<mapsto> v))))"

definition cell :: "matrix \<Rightarrow> string \<Rightarrow> string \<Rightarrow> real option" where
  "cell m t1 t2 = (case m t1 of None \<Rightarrow> None | Some row \<Rightarrow> row t2)"

text \<open>The initialisation both builders share: every row is created, every cell set to \<open>0\<close>.\<close>

definition initMatrix :: "string list \<Rightarrow> error + matrix" where
  "initMatrix tickers =
     forEach (\<lambda>m ticker1.
                forEach (\<lambda>m ticker2. setCell m ticker1 ticker2 0) tickers
                        (m(ticker1 \<mapsto> Map.empty)))
             tickers Map.empty"

text \<open>
  The body of the inner callback of \<^verbatim>\<open>processStockData\<close>. The arrays
  \<^verbatim>\<open>prices1\<close> and \<^verbatim>\<open>prices2\<close> of the source are computed and never read;
  only the lookups that could throw are kept. Tickers are compared as strings
  (\<^verbatim>\<open>ticker1 < ticker2\<close>), lexicographically by character code.
\<close>

definition processPair ::
  "environment \<Rightarrow> (string \<times> StockPrice list) list \<Rightarrow> string \<Rightarrow> matrix \<Rightarrow> string
     \<Rightarrow> error + matrix" where
  "processPair env stockData ticker1 m ticker2 =
     (if ticker1 = ticker2 then setCell m ticker1 ticker2 1
      else if ticker1 < ticker2 then
        (case (map_of stockData ticker1, map_of stockData ticker2) of
           (Some series1, Some series2) \<Rightarrow>
             (case alignPricesByTimestamp env series1 series2 of
                Inl e \<Rightarrow> Inl e
              | Inr alignedPrices \<Rightarrow>
                  let alignedPrices1 = map price1 alignedPrices;
                      alignedPrices2 = map price2 alignedPrices;
                      correlation = calculateCorrelation alignedPrices1 alignedPrices2
                  in (case setCell m ticker1 ticker2 correlation of
                        Inl e \<Rightarrow> Inl e
                      | Inr m' \<Rightarrow> setCell m' ticker2 ticker1 correlation))
         | _ \<Rightarrow> Inl TypeError)
      else Inr m)"

definition processStockData ::
  "environment \<Rightarrow> (string \<times> StockPrice list) list \<Rightarrow> error + matrix" where
  "processStockData env stockData =
     (let tickers = map fst stockData
      in case initMatrix tickers of
           Inl e \<Rightarrow> Inl e
         | Inr correlationMatrix \<Rightarrow>
             forEach (\<lambda>m ticker1. forEach (processPair env stockData ticker1) tickers m)
                     tickers correlationMatrix)"

text \<open>
  The matrix of the component \<^verbatim>\<open>CorrelationHeatmap\<close>: both loops carry the index
  (\<^verbatim>\<open>forEach((ticker1, i) => ...)\<close>), every pair with \<^verbatim>\<open>i <= j\<close> is computed,
  the diagonal included, and the series are cut to their common length from the front.
\<close>

definition heatmapPair ::
  "(string \<times> StockPrice list) list \<Rightarrow> nat \<times> string \<Rightarrow> matrix \<Rightarrow> nat \<times> string \<Rightarrow> error + matrix" where
  "heatmapPair stockData it1 m jt2 =
     (let (i, ticker1) = it1; (j, ticker2) = jt2
      in if i \<le> j then
           (case (map_of stockData ticker1, map_of stockData ticker2) of
              (Some series1, Some series2) \<Rightarrow>
                let prices1 = map price series1;
                    prices2 = map price series2;
                    minLength = min (length prices1) (length prices2);
                    alignedPrices1 = take minLength prices1;
                    alignedPrices2 = take minLength prices2;
                    n = length alignedPrices1
                in if n = 0 then
                     (case setCell m ticker1 ticker2 0 of
                        Inl e \<Rightarrow> Inl e
                      | Inr m' \<Rightarrow> setCell m' ticker2 ticker1 0)
                   else
                     let correlation = heatmapCorrelation alignedPrices1 alignedPrices2
                     in (case setCell m ticker1 ticker2 correlation of
                           Inl e \<Rightarrow> Inl e
                         | Inr m' \<Rightarrow> setCell m' ticker2 ticker1 correlation)
            | _ \<Rightarrow> Inl TypeError)
         else Inr m)"

definition heatmapMatrix :: "(string \<times> StockPrice list) list \<Rightarrow> error + matrix" where
  "heatmapMatrix stockData =
     (let tickers = map fst stockData
      in case initMatrix tickers of
           Inl e \<Rightarrow> Inl e
         | Inr matrix \<Rightarrow>
             forEach (\<lambda>m it1. forEach (heatmapPair stockData it1) (enumerate 0 tickers) m)
                     (enumerate 0 tickers) matrix)"

section \<open>Lag-1 correlation of price changes\<close>

text \<open>
  \<^verbatim>\<open>StockPage\<close>: the loop
  \<^verbatim>\<open>for (let i = 1; i < prices.length; i++) priceChanges.push(prices[i] - prices[i - 1])\<close>
  and the correlation of the changes with the changes shifted by one;
  \<^verbatim>\<open>slice(0, -1)\<close> drops the last element, \<^verbatim>\<open>slice(1)\<close> the first.
\<close>

function priceChangesFrom :: "real list \<Rightarrow> nat \<Rightarrow> real list \<Rightarrow> real list" where
  "priceChangesFrom prices i priceChanges =
     (if i < length prices
      then priceChangesFrom prices (i + 1) (priceChanges @ [prices ! i - prices ! (i - 1)])
      else priceChanges)"
  by pat_completeness auto
termination
  by (relation "measure (\<lambda>(prices, i, priceChanges). length prices - i)") auto

declare priceChangesFrom.simps [simp del]

definition lagOneCorrelation :: "real list \<Rightarrow> real" where
  "lagOneCorrelation prices =
     (let priceChanges = priceChangesFrom prices 1 []
      in if length priceChanges > 1
         then let currentChanges = take (length priceChanges - 1) priceChanges;
                  nextChanges = drop 1 priceChanges
              in calculateCorrelation currentChanges nextChanges
         else 0)"

section \<open>Binary64 arithmetic\<close>

text \<open>
  A JavaScript number is an IEEE 754 binary64 value, and \<open>+\<close>, \<open>-\<close>, \<open>*\<close>, \<open>/\<close>
  return the exact result rounded to the nearest such value, ties to the even
  significand; \<^verbatim>\<open>Math.sqrt\<close> is taken to do the same, as the hardware
  instruction does. A finite binary64 value is embedded as the real number it denotes.
  \<open>binary64 x\<close> is the representable value nearest to \<open>x\<close>: a multiple of the unit in
  the last place \<open>2\<^sup>e\<^sup>-\<^sup>5\<^sup>2\<close>, where \<open>e\<close> is the binary exponent of \<open>x\<close>, and \<open>-1022\<close> in
  the subnormal range. Overflow to \<^verbatim>\<open>Infinity\<close> is not part of the embedding: it is
  the arithmetic of results below \<open>2\<^sup>1\<^sup>0\<^sup>2\<^sup>4\<close> in magnitude. The sign of zero is dropped;
  \<^verbatim>\<open>-0 === 0\<close> holds, and no operation of the code below tells the two apart.
\<close>

definition roundTiesToEven :: "real \<Rightarrow> int" where
  "roundTiesToEven y =
     (let f = \<lfloor>y\<rfloor>
      in if y - of_int f < 1 / 2 then f
         else if y - of_int f > 1 / 2 then f + 1
         else if even f then f else f + 1)"

definition binary64 :: "real \<Rightarrow> real" where
  "binary64 x =
     (if x = 0 then 0
      else let e = max \<lfloor>log 2 \<bar>x\<bar>\<rfloor> (- 1022);
               ulp = 2 powi (e - 52)
           in of_int (roundTiesToEven (x / ulp)) * ulp)"

definition fadd :: "real \<Rightarrow> real \<Rightarrow> real" where
  "fadd x y = binary64 (x + y)"

definition fsub :: "real \<Rightarrow> real \<Rightarrow> real" where
  "fsub x y = binary64 (x - y)"

definition fmul :: "real \<Rightarrow> real \<Rightarrow> real" where
  "fmul x y = binary64 (x * y)"

definition fdiv :: "real \<Rightarrow> real \<Rightarrow> real" where
  "fdiv x y = binary64 (x / y)"

definition fsqrt :: "real \<Rightarrow> real" where
  "fsqrt x = binary64 (sqrt x)"

text \<open>
  \<^verbatim>\<open>calculateAverage\<close>, the accumulation loop, \<^verbatim>\<open>calculateCorrelation\<close> and the
  inline correlation of \<^verbatim>\<open>CorrelationHeatmap\<close> once more, operation by operation in
  the order of the source, on binary64 values. The length of an array is an integer
  below \<open>2\<^sup>5\<^sup>3\<close> and so a binary64 value itself.
\<close>

definition calculateAverage64 :: "real list \<Rightarrow> real" where
  "calculateAverage64 prices =
     (if length prices = 0 then 0
      else let sum = foldl (\<lambda>acc p. fadd acc p) 0 prices
           in fdiv sum (real (length prices)))"

definition correlationSums64 ::
  "real list \<Rightarrow> real list \<Rightarrow> real \<Rightarrow> real \<Rightarrow> nat \<Rightarrow> real \<times> real \<times> real" where
  "correlationSums64 prices1 prices2 avg1 avg2 n =
     foldl (\<lambda>(covariance, variance1, variance2) i.
              let diff1 = fsub (prices1 ! i) avg1;
                  diff2 = fsub (prices2 ! i) avg2
              in (fadd covariance (fmul diff1 diff2),
                  fadd variance1 (fmul diff1 diff1),
                  fadd variance2 (fmul diff2 diff2)))
           (0, 0, 0) [0..<n]"

definition calculateCorrelation64 :: "real list \<Rightarrow> real list \<Rightarrow> real" where
  "calculateCorrelation64 prices1 prices2 =
     (if length prices1 \<noteq> length prices2 then 0
      else if length prices1 = 0 then 0
      else let n = length prices1;
               avg1 = calculateAverage64 prices1;
               avg2 = calculateAverage64 prices2;
               (covariance, variance1, variance2) =
                 correlationSums64 prices1 prices2 avg1 avg2 n
           in if variance1 = 0 then 0
              else if variance2 = 0 then 0
              else fdiv covariance (fmul (fsqrt variance1) (fsqrt variance2)))"

definition heatmapCorrelation64 :: "real list \<Rightarrow> real list \<Rightarrow> real" where
  "heatmapCorrelation64 alignedPrices1 alignedPrices2 =
     (let n = length alignedPrices1;
          avg1 = calculateAverage64 alignedPrices1;
          avg2 = calculateAverage64 alignedPrices2;
          (covariance, variance1, variance2) =
            correlationSums64 alignedPrices1 alignedPrices2 avg1 avg2 n;
          correlation =
            (if variance1 > 0 \<and> variance2 > 0
             then fdiv covariance (fmul (fsqrt variance1) (fsqrt variance2)) else 0)
      in max (- 1) (min 1 correlation))"

section \<open>Notions used in the statements\<close>

text \<open>
  The sums that the accumulation loop computes, in closed form: the sum of the products
  of the deviations from the two averages, and the sum of the squared deviations of one
  sequence from its own average, over the first \<open>n\<close> positions.
\<close>

definition covSum :: "real list \<Rightarrow> real list \<Rightarrow> real" where
  "covSum xs ys =
     (\<Sum>i<length xs. (xs ! i - calculateAverage xs) * (ys ! i - calculateAverage ys))"

definition varSum :: "nat \<Rightarrow> real list \<Rightarrow> real" where
  "varSum n xs = (\<Sum>i<n. (xs ! i - calculateAverage xs)\<^sup>2)"

text \<open>A sequence all of whose values are equal (the empty sequence included).\<close>

definition constantSeq :: "real list \<Rightarrow> bool" where
  "constantSeq xs \<longleftrightarrow> (\<forall>x\<in>set xs. x = hd xs)"

text \<open>
  The samples of a series under their keys, in the order of the series: \<open>None\<close> when
  a time stamp of the series is no date.
\<close>

fun entries :: "environment \<Rightarrow> StockPrice list \<Rightarrow> (int \<times> real) list option" where
  "entries env [] = Some []"
| "entries env (item # series) =
     (case roundedTime env (timestamp item) of
        Inl e \<Rightarrow> None
      | Inr key \<Rightarrow> map_option ((#) (key, price item)) (entries env series))"

text \<open>
  The notions in which the specification words the alignment. The keyed samples of a
  series have a set of buckets, an order in which the buckets first occur, and for every
  bucket the price of the last sample that falls into it.
\<close>

definition buckets :: "(int \<times> real) list \<Rightarrow> int set" where
  "buckets samples = fst ` set samples"

fun firstOccurrences :: "'a list \<Rightarrow> 'a list" where
  "firstOccurrences [] = []"
| "firstOccurrences (x # xs) = x # removeAll x (firstOccurrences xs)"

definition bucketOrder :: "(int \<times> real) list \<Rightarrow> int list" where
  "bucketOrder samples = firstOccurrences (map fst samples)"

definition bucketPrice :: "(int \<times> real) list \<Rightarrow> int \<Rightarrow> real option" where
  "bucketPrice samples k = map_option snd (find (\<lambda>sample. fst sample = k) (rev samples))"

text \<open>
  The time bucket of the specification: the time stamp cut to the minute, that is the
  instant rounded down to a multiple of \<open>60000\<close> ms. \<open>minuteBuckets\<close> are the time
  buckets of the samples of a series.
\<close>

definition minuteBuckets :: "environment \<Rightarrow> StockPrice list \<Rightarrow> int set" where
  "minuteBuckets env series =
     set (List.map_filter
            (\<lambda>item. map_option (\<lambda>t. t - t mod 60000) (parseDate env (timestamp item))) series)"

text \<open>Every time stamp of the input is a date.\<close>

definition datesValid :: "environment \<Rightarrow> (string \<times> StockPrice list) list \<Rightarrow> bool" where
  "datesValid env stockData \<longleftrightarrow>
     (\<forall>series\<in>snd ` set stockData. \<forall>item\<in>set series. parseDate env (timestamp item) \<noteq> None)"

text \<open>
  An environment in the time zone \<^verbatim>\<open>America/New_York\<close> on 3 November 2024. At
  06:00 UTC (\<open>1730613600000\<close>) the clocks go back from 02:00 to 01:00: the offset is
  four hours before that instant and five hours from it on, and the local times from
  01:00 to 02:00 occur twice. A local time before 02:00 (\<open>1730599200000\<close>) is read with
  the offset of four hours. The two time stamps used below are parsed as every engine
  parses them, 05:30 UTC and 06:30 UTC of that day; no other string is needed.
\<close>

definition newYork :: environment where
  "newYork =
     \<lparr>parseDate = (\<lambda>s. if s = ''2024-11-03T05:30:00.000Z'' then Some 1730611800000
                       else if s = ''2024-11-03T06:30:00.000Z'' then Some 1730615400000
                       else None),
      localTZA = (\<lambda>t isUTC. if isUTC then (if t < 1730613600000 then - 14400000 else - 18000000)
                             else (if t < 1730599200000 then - 14400000 else - 18000000))\<rparr>"

text \<open>The step of the loop that fills a time map, on a keyed sample.\<close>

definition setPrice :: "(int \<times> real) list \<Rightarrow> int \<times> real \<Rightarrow> (int \<times> real) list" where
  "setPrice timeMap sample = AList.update (fst sample) (snd sample) timeMap"

text \<open>
  The cells that the two assignments \<^verbatim>\<open>m[t1][t2] = v; m[t2][t1] = v\<close> write, and the
  invariant of both matrix builders: every row exists, every cell of the square is set,
  and the matrix equals its transpose.
\<close>

definition written :: "string \<Rightarrow> string \<Rightarrow> string \<Rightarrow> string \<Rightarrow> bool" where
  "written t1 t2 x y \<longleftrightarrow> (x = t1 \<and> y = t2) \<or> (x = t2 \<and> y = t1)"

definition symmetricOn :: "string set \<Rightarrow> matrix \<Rightarrow> bool" where
  "symmetricOn T m \<longleftrightarrow>
     dom m = T \<and> (\<forall>x y. cell m x y = cell m y x) \<and> (\<forall>x\<in>T. \<forall>y\<in>T. cell m x y \<noteq> None)"

chapter \<open>Properties\<close>

section \<open>Descriptive statistics\<close>

lemma foldl_add_sum_list: "foldl (\<lambda>acc p. acc + p) a xs = (a::real) + sum_list xs"
  by (induction xs arbitrary: a) simp_all

lemma calculateAverage_sum_list:
  "xs \<noteq> [] \<Longrightarrow> calculateAverage xs = sum_list xs / real (length xs)"
  by (simp add: calculateAverage_def foldl_add_sum_list)

text \<open>
  C7. The statistics of the empty sequence are the number \<open>0\<close>:
  \<open>calculateAverage []\<close> and \<open>calculateStandardDeviation []\<close> both return \<open>0\<close>.
\<close>

theorem empty_statistics_zero:
  "calculateAverage [] = 0 \<and> calculateStandardDeviation [] = 0"
  by (simp add: calculateAverage_def calculateStandardDeviation_def)

lemma calculateStandardDeviation_sum_list:
  assumes "prices \<noteq> []"
  shows "calculateStandardDeviation prices =
           sqrt ((\<Sum>p\<leftarrow>prices. (p - sum_list prices / real (length prices))\<^sup>2)
                 / real (length prices))"
  using assms
  by (simp add: calculateStandardDeviation_def calculateAverage_sum_list Let_def)

lemma sqrt5_approx: "\<bar>sqrt 5 - 2.236\<bar> < 0.0005"
proof -
  have "4471 / 2000 < sqrt 5"
    by (rule real_less_rsqrt) (simp add: power2_eq_square)
  moreover have "sqrt 5 < 4473 / 2000"
    by (rule real_less_lsqrt) (simp_all add: power2_eq_square)
  ultimately have "\<bar>sqrt 5 - 559 / 250\<bar> < 1 / 2000" by linarith
  then show ?thesis by simp
qed

lemma stdDev_example: "calculateStandardDeviation [100, 102, 98, 104] = sqrt 5"
  by (simp add: calculateStandardDeviation_def calculateAverage_def)

text \<open>
  C8. \<open>calculateStandardDeviation\<close> is the population standard deviation: for a
  non-empty sequence of \<open>N\<close> values it is the square root of the sum of the squared
  deviations from the arithmetic mean, divided by \<open>N\<close> (not \<open>N - 1\<close>). The mean of
  \<open>[100, 102, 98, 104]\<close> is \<open>101\<close>, its standard deviation is \<open>2.236\<close> to three
  decimal places, and the standard deviation of a single value is \<open>0\<close>.
\<close>

theorem calculateStandardDeviation_population:
  "(prices \<noteq> [] \<longrightarrow>
      calculateStandardDeviation prices =
        sqrt ((\<Sum>p\<leftarrow>prices. (p - sum_list prices / real (length prices))\<^sup>2)
              / real (length prices)))
   \<and> calculateAverage [100, 102, 98, 104] = 101
   \<and> \<bar>calculateStandardDeviation [100, 102, 98, 104] - 2.236\<bar> < 0.0005
   \<and> calculateStandardDeviation [x] = 0"
proof -
  have "calculateAverage [100, 102, 98, 104] = 101"
    by (simp add: calculateAverage_def)
  moreover have "calculateStandardDeviation [x] = 0"
    by (simp add: calculateStandardDeviation_def calculateAverage_def)
  ultimately show ?thesis
    using calculateStandardDeviation_sum_list[of prices] sqrt5_approx
    by (simp add: stdDev_example)
qed

theorem calculateStandardDeviation_population_witness:
  "[1, 3] \<noteq> ([] :: real list) \<and> calculateStandardDeviation [1, 3] = 1"
  using calculateStandardDeviation_population[of "[1, 3]" 0] by simp

section \<open>Pearson correlation\<close>

lemma cauchy_schwarz_step:
  fixes S A B a b :: real
  assumes "S\<^sup>2 \<le> A * B" "0 \<le> A" "0 \<le> B"
  shows "(S + a * b)\<^sup>2 \<le> (A + a\<^sup>2) * (B + b\<^sup>2)"
proof -
  have "\<bar>S\<bar> \<le> sqrt A * sqrt B"
    using assms by (metis real_sqrt_abs real_sqrt_le_iff real_sqrt_mult)
  moreover have "0 \<le> (sqrt A * \<bar>b\<bar> - sqrt B * \<bar>a\<bar>)\<^sup>2" by simp
  then have "2 * (sqrt A * sqrt B) * (\<bar>a\<bar> * \<bar>b\<bar>) \<le> A * b\<^sup>2 + B * a\<^sup>2"
    using assms by (simp add: power2_diff power_mult_distrib algebra_simps)
  moreover have "S * (a * b) \<le> \<bar>S\<bar> * (\<bar>a\<bar> * \<bar>b\<bar>)"
    by (metis abs_ge_self abs_mult)
  moreover have "\<bar>S\<bar> * (\<bar>a\<bar> * \<bar>b\<bar>) \<le> (sqrt A * sqrt B) * (\<bar>a\<bar> * \<bar>b\<bar>)"
    using calculation(1) by (simp add: mult_right_mono)
  ultimately have "2 * S * (a * b) \<le> A * b\<^sup>2 + B * a\<^sup>2" by linarith
  then show ?thesis
    using assms(1) by (simp add: power2_sum algebra_simps power_mult_distrib)
qed

lemma cauchy_schwarz_sum:
  fixes f g :: "nat \<Rightarrow> real"
  shows "(\<Sum>i<n. f i * g i)\<^sup>2 \<le> (\<Sum>i<n. (f i)\<^sup>2) * (\<Sum>i<n. (g i)\<^sup>2)"
proof (induction n)
  case 0
  then show ?case by simp
next
  case (Suc n)
  show ?case
    using cauchy_schwarz_step[OF Suc, of "f n" "g n"] by (simp add: sum_nonneg add.commute)
qed

lemma correlationSums_sum:
  "correlationSums xs ys a b n =
     (\<Sum>i<n. (xs ! i - a) * (ys ! i - b), \<Sum>i<n. (xs ! i - a)\<^sup>2, \<Sum>i<n. (ys ! i - b)\<^sup>2)"
  unfolding correlationSums_def
  by (induction n) (simp_all add: Let_def power2_eq_square)

lemma calculateCorrelation_sums:
  assumes "length xs = length ys" "xs \<noteq> []"
  shows "calculateCorrelation xs ys =
           (if varSum (length xs) xs = 0 then 0
            else if varSum (length xs) ys = 0 then 0
            else covSum xs ys / (sqrt (varSum (length xs) xs) * sqrt (varSum (length xs) ys)))"
  using assms
  unfolding calculateCorrelation_def correlationSums_sum covSum_def varSum_def Let_def
  by simp

lemma calculateCorrelation_trivial:
  "length xs \<noteq> length ys \<or> xs = [] \<Longrightarrow> calculateCorrelation xs ys = 0"
  unfolding calculateCorrelation_def by auto

lemma covSum_varSum: "(covSum xs ys)\<^sup>2 \<le> varSum (length xs) xs * varSum (length xs) ys"
  unfolding covSum_def varSum_def by (rule cauchy_schwarz_sum)

lemma varSum_nonneg: "0 \<le> varSum n xs"
  unfolding varSum_def by (simp add: sum_nonneg)

lemma pearson_bound:
  fixes c v1 v2 :: real
  assumes "c\<^sup>2 \<le> v1 * v2" "0 \<le> v1" "0 \<le> v2" "v1 \<noteq> 0" "v2 \<noteq> 0"
  shows "\<bar>c / (sqrt v1 * sqrt v2)\<bar> \<le> 1"
proof -
  have "\<bar>c\<bar> \<le> sqrt v1 * sqrt v2"
    using assms by (metis real_sqrt_abs real_sqrt_le_iff real_sqrt_mult)
  moreover have "0 < sqrt v1 * sqrt v2" using assms by simp
  ultimately show ?thesis by (simp add: abs_mult flip: abs_mult)
qed

lemma calculateCorrelation_abs_le_1: "\<bar>calculateCorrelation xs ys\<bar> \<le> 1"
proof (cases "length xs = length ys \<and> xs \<noteq> []")
  case False
  then show ?thesis using calculateCorrelation_trivial[of xs ys] by auto
next
  case True
  show ?thesis
    using True pearson_bound[OF covSum_varSum varSum_nonneg varSum_nonneg, of xs ys]
    by (simp add: calculateCorrelation_sums)
qed

lemma calculateCorrelation_commute: "calculateCorrelation xs ys = calculateCorrelation ys xs"
proof (cases "length xs = length ys \<and> xs \<noteq> []")
  case False
  then show ?thesis
    using calculateCorrelation_trivial[of xs ys] calculateCorrelation_trivial[of ys xs] by auto
next
  case True
  then have "length ys = length xs" "ys \<noteq> []" by auto
  moreover have "covSum xs ys = covSum ys xs"
    using True by (simp add: covSum_def mult.commute)
  ultimately show ?thesis
    using True by (simp add: calculateCorrelation_sums mult.commute)
qed

lemma varSum_const:
  assumes "\<forall>x\<in>set xs. x = c" "xs \<noteq> []"
  shows "varSum (length xs) xs = 0"
proof -
  have "sum_list xs = real (length xs) * c"
    using assms(1) by (induction xs) (simp_all add: algebra_simps)
  then have "calculateAverage xs = c"
    using assms(2) by (simp add: calculateAverage_sum_list)
  moreover have "\<forall>i<length xs. xs ! i = c" using assms(1) by simp
  ultimately show ?thesis by (simp add: varSum_def)
qed

lemma calculateCorrelation_const_left:
  assumes "\<forall>x\<in>set xs. x = c"
  shows "calculateCorrelation xs ys = 0"
proof (cases "length xs = length ys \<and> xs \<noteq> []")
  case False
  then show ?thesis using calculateCorrelation_trivial[of xs ys] by auto
next
  case True
  then show ?thesis
    using varSum_const[OF assms] by (simp add: calculateCorrelation_sums)
qed

lemma calculateCorrelation_const_right:
  "\<forall>y\<in>set ys. y = c \<Longrightarrow> calculateCorrelation xs ys = 0"
  using calculateCorrelation_const_left[of ys c xs] by (simp add: calculateCorrelation_commute)

section \<open>Alignment by time stamp\<close>

lemma set_firstOccurrences [simp]: "set (firstOccurrences xs) = set xs"
  by (induction xs) auto

lemma distinct_firstOccurrences [simp]: "distinct (firstOccurrences xs)"
  by (induction xs) (auto simp: distinct_removeAll)

lemma firstOccurrences_filter:
  "firstOccurrences (filter P xs) = filter P (firstOccurrences xs)"
  by (induction xs) (auto simp: removeAll_filter_not_eq filter_empty_conv intro!: filter_cong)

lemma roundedTime_None: "parseDate env ts = None \<Longrightarrow> roundedTime env ts = Inl RangeError"
  by (simp add: roundedTime_def)

lemma roundedTime_Some:
  "parseDate env ts = Some t \<Longrightarrow>
   roundedTime env ts =
     Inr (t + localTZA env t True - (t + localTZA env t True) mod 60000
          - localTZA env (t + localTZA env t True - (t + localTZA env t True) mod 60000) False)"
  by (simp add: roundedTime_def Let_def)

lemma entries_None_iff:
  "entries env series = None \<longleftrightarrow> (\<exists>item\<in>set series. parseDate env (timestamp item) = None)"
proof (induction series)
  case Nil
  then show ?case by simp
next
  case (Cons item series)
  show ?case
  proof (cases "parseDate env (timestamp item)")
    case None
    then show ?thesis by (simp add: roundedTime_None)
  next
    case (Some t)
    then show ?thesis using Cons.IH by (simp add: roundedTime_Some)
  qed
qed

lemma forEach_timeMap:
  "forEach (\<lambda>timeMap item.
              case roundedTime env (timestamp item) of
                Inl e \<Rightarrow> Inl e
              | Inr key \<Rightarrow> Inr (AList.update key (price item) timeMap)) series tm =
     (case entries env series of
        None \<Rightarrow> Inl RangeError
      | Some samples \<Rightarrow> Inr (foldl setPrice tm samples))"
proof (induction series arbitrary: tm)
  case Nil
  then show ?case by simp
next
  case (Cons item series)
  show ?case
  proof (cases "parseDate env (timestamp item)")
    case None
    then show ?thesis by (simp add: roundedTime_None)
  next
    case (Some t)
    then show ?thesis
      by (simp add: roundedTime_Some Cons.IH setPrice_def split: option.splits)
  qed
qed

lemma timeMapOf_entries:
  "timeMapOf env series =
     (case entries env series of
        None \<Rightarrow> Inl RangeError
      | Some samples \<Rightarrow> Inr (foldl setPrice [] samples))"
  unfolding timeMapOf_def by (rule forEach_timeMap)

lemma keys_foldl_setPrice:
  "distinct (map fst tm) \<Longrightarrow>
   map fst (foldl setPrice tm ps) =
     map fst tm @ firstOccurrences (filter (\<lambda>k. k \<notin> fst ` set tm) (map fst ps))"
proof (induction ps arbitrary: tm)
  case Nil
  then show ?case by simp
next
  case (Cons p ps)
  let ?k = "fst p"
  let ?tm = "setPrice tm p"
  have d: "distinct (map fst ?tm)"
    using Cons.prems by (simp add: setPrice_def distinct_update)
  have keys: "map fst ?tm = (if ?k \<in> fst ` set tm then map fst tm else map fst tm @ [?k])"
    by (simp add: setPrice_def update_keys)
  have dom: "fst ` set ?tm = insert ?k (fst ` set tm)"
    by (simp add: setPrice_def dom_update)
  have filt: "filter (\<lambda>k. k \<notin> insert ?k (fst ` set tm)) (map fst ps)
               = filter (\<lambda>k. k \<noteq> ?k) (filter (\<lambda>k. k \<notin> fst ` set tm) (map fst ps))"
    by (auto intro: filter_cong)
  show ?case
  proof (cases "?k \<in> fst ` set tm")
    case True
    then have "insert ?k (fst ` set tm) = fst ` set tm" by auto
    then show ?thesis using Cons.IH[OF d] True keys dom by simp
  next
    case False
    then show ?thesis
      using Cons.IH[OF d] keys dom filt
      by (simp add: firstOccurrences_filter removeAll_filter_not_eq) (metis (mono_tags, lifting) filter_cong)
  qed
qed

lemma find_append_split:
  "find P (xs @ ys) = (case find P xs of Some x \<Rightarrow> Some x | None \<Rightarrow> find P ys)"
  by (induction xs) simp_all

lemma bucketPrice_Cons:
  "bucketPrice (p # ps) k =
     (case bucketPrice ps k of
        Some v \<Rightarrow> Some v
      | None \<Rightarrow> if fst p = k then Some (snd p) else None)"
  by (simp add: bucketPrice_def find_append_split split: option.splits)

lemma map_of_foldl_setPrice:
  "map_of (foldl setPrice tm ps) k =
     (case bucketPrice ps k of Some v \<Rightarrow> Some v | None \<Rightarrow> map_of tm k)"
proof (induction ps arbitrary: tm)
  case Nil
  then show ?case by (simp add: bucketPrice_def)
next
  case (Cons p ps)
  have "map_of (setPrice tm p) k = (if fst p = k then Some (snd p) else map_of tm k)"
    by (auto simp add: setPrice_def update_conv')
  then show ?case
    by (simp add: Cons.IH bucketPrice_Cons split: option.splits)
qed

lemma bucketPrice_None: "bucketPrice ps k = None \<longleftrightarrow> k \<notin> buckets ps"
  by (force simp: bucketPrice_def buckets_def find_None_iff)

lemma bucketPrice_Some: "(\<exists>v. bucketPrice ps k = Some v) \<longleftrightarrow> k \<in> buckets ps"
  using bucketPrice_None[of ps k] by (cases "bucketPrice ps k") simp_all

lemma foldl_push_filter:
  "foldl (\<lambda>acc k. if P k then acc @ [h k] else acc) acc ks = acc @ map h (filter P ks)"
  by (induction ks arbitrary: acc) simp_all

lemma set_bucketOrder: "set (bucketOrder samples) = buckets samples"
  by (simp add: bucketOrder_def buckets_def)

lemma distinct_bucketOrder: "distinct (bucketOrder samples)"
  by (simp add: bucketOrder_def)

text \<open>
  The result of \<open>alignPricesByTimestamp\<close> in closed form. When every time stamp of both
  series is a date, it is the join of the two time maps: for the keys of series A that
  series B has too, in the order in which they first occur in A and each key once, the
  prices that the last samples under the key have in A and in B. Otherwise it is the
  \<^verbatim>\<open>RangeError\<close> of \<^verbatim>\<open>toISOString\<close>.
\<close>

lemma alignPricesByTimestamp_eq:
  assumes "entries env seriesA = Some samplesA" and "entries env seriesB = Some samplesB"
  shows "alignPricesByTimestamp env seriesA seriesB =
     Inr (map (\<lambda>k. \<lparr>price1 = the (bucketPrice samplesA k), price2 = the (bucketPrice samplesB k)\<rparr>)
              (filter (\<lambda>k. k \<in> buckets samplesB) (bucketOrder samplesA)))"
proof -
  have keys: "map fst (foldl setPrice [] samplesA) = bucketOrder samplesA"
    using keys_foldl_setPrice[of "[]" samplesA] by (simp add: bucketOrder_def)
  have get: "map_of (foldl setPrice [] samples) k = bucketPrice samples k" for samples k
    using map_of_foldl_setPrice[of "[]" samples k] by (simp split: option.splits)
  show ?thesis
    unfolding alignPricesByTimestamp_def timeMapOf_entries assms Let_def
    by (simp add: foldl_push_filter keys get bucketPrice_Some)
qed

lemma alignPricesByTimestamp_RangeError:
  assumes "entries env seriesA = None \<or> entries env seriesB = None"
  shows "alignPricesByTimestamp env seriesA seriesB = Inl RangeError"
  using assms
  by (auto simp add: alignPricesByTimestamp_def timeMapOf_entries split: option.splits)

lemma alignPricesByTimestamp_join:
  assumes "entries env seriesA = Some samplesA" and "entries env seriesB = Some samplesB"
  shows "\<exists>pairs. alignPricesByTimestamp env seriesA seriesB = Inr pairs
           \<and> list_all2 (\<lambda>k pair. bucketPrice samplesA k = Some (price1 pair)
                                  \<and> bucketPrice samplesB k = Some (price2 pair))
                (filter (\<lambda>k. k \<in> buckets samplesB) (bucketOrder samplesA)) pairs"
proof -
  have "bucketPrice samplesA k = Some (the (bucketPrice samplesA k))
        \<and> bucketPrice samplesB k = Some (the (bucketPrice samplesB k))"
    if "k \<in> buckets samplesA" "k \<in> buckets samplesB" for k
    using that bucketPrice_Some[of samplesA k] bucketPrice_Some[of samplesB k] by auto
  then show ?thesis
    by (simp add: alignPricesByTimestamp_eq[OF assms] list_all2_map2 list_all2_same
        set_bucketOrder)
qed

lemma length_alignPricesByTimestamp:
  assumes "entries env seriesA = Some samplesA" and "entries env seriesB = Some samplesB"
  shows "\<exists>pairs. alignPricesByTimestamp env seriesA seriesB = Inr pairs
           \<and> length pairs = card (buckets samplesA \<inter> buckets samplesB)"
proof -
  have "{k. k \<in> buckets samplesB} \<inter> set (bucketOrder samplesA) = buckets samplesA \<inter> buckets samplesB"
    by (auto simp: set_bucketOrder)
  then show ?thesis
    by (simp add: alignPricesByTimestamp_eq[OF assms] distinct_length_filter[OF distinct_bucketOrder])
qed

text \<open>
  Swapping the two series keeps the number of pairs, whatever the keys are; and both
  orders throw when a time stamp is no date.
\<close>

lemma alignPricesByTimestamp_swap:
  "map_sum id length (alignPricesByTimestamp env seriesA seriesB) =
   map_sum id length (alignPricesByTimestamp env seriesB seriesA)"
proof (cases "entries env seriesA = None \<or> entries env seriesB = None")
  case True
  then show ?thesis
    using alignPricesByTimestamp_RangeError[of env seriesA seriesB]
      alignPricesByTimestamp_RangeError[of env seriesB seriesA] by auto
next
  case False
  then obtain samplesA samplesB where
    s: "entries env seriesA = Some samplesA" "entries env seriesB = Some samplesB" by auto
  show ?thesis
    using length_alignPricesByTimestamp[OF s] length_alignPricesByTimestamp[OF s(2,1)]
    by (auto simp add: Int_commute)
qed

text \<open>
  Where the offset of local time from UTC never changes and is a whole number of
  minutes, the key is the time bucket of the specification, and the number of pairs is
  the number of time buckets that the two series share.
\<close>

lemma roundedTime_fixed_offset:
  assumes "\<And>t isUTC. localTZA env t isUTC = offset" and "offset mod 60000 = 0"
    and "parseDate env ts = Some t"
  shows "roundedTime env ts = Inr (t - t mod 60000)"
proof -
  have "(t + offset) mod 60000 = t mod 60000"
    using assms(2) by (metis add.right_neutral mod_add_right_eq)
  then show ?thesis
    by (simp add: roundedTime_Some[OF assms(3)] assms(1))
qed

lemma buckets_fixed_offset:
  assumes "\<And>t isUTC. localTZA env t isUTC = offset" and "offset mod 60000 = 0"
  shows "entries env series = Some samples \<Longrightarrow> buckets samples = minuteBuckets env series"
proof (induction series arbitrary: samples)
  case Nil
  then show ?case by (simp add: buckets_def minuteBuckets_def)
next
  case (Cons item series)
  show ?case
  proof (cases "parseDate env (timestamp item)")
    case None
    then show ?thesis using Cons.prems by (simp add: roundedTime_None)
  next
    case (Some t)
    then obtain rest where rest: "entries env series = Some rest"
        "samples = (t - t mod 60000, price item) # rest"
      using Cons.prems by (auto simp add: roundedTime_fixed_offset[OF assms Some])
    have "buckets rest = minuteBuckets env series" using Cons.IH[OF rest(1)] .
    then show ?thesis
      using Some rest(2) by (simp add: buckets_def minuteBuckets_def)
  qed
qed

lemma alignPricesByTimestamp_fixed_offset:
  assumes "\<And>t isUTC. localTZA env t isUTC = offset" and "offset mod 60000 = 0"
    and "\<forall>item\<in>set seriesA \<union> set seriesB. parseDate env (timestamp item) \<noteq> None"
  shows "\<exists>pairs. alignPricesByTimestamp env seriesA seriesB = Inr pairs
           \<and> length pairs = card (minuteBuckets env seriesA \<inter> minuteBuckets env seriesB)"
proof -
  obtain samplesA samplesB where
    s: "entries env seriesA = Some samplesA" "entries env seriesB = Some samplesB"
    using assms(3) entries_None_iff[of env seriesA] entries_None_iff[of env seriesB]
    by (metis UnCI not_Some_eq)
  show ?thesis
    using length_alignPricesByTimestamp[OF s]
    by (simp add: buckets_fixed_offset[OF assms(1,2) s(1)] buckets_fixed_offset[OF assms(1,2) s(2)])
qed

lemma alignPricesByTimestamp_example:
  assumes "\<And>t isUTC. localTZA env t isUTC = offset" and "offset mod 60000 = 0"
    and "parseDate env t0 = Some 0" and "parseDate env t1 = Some 60000"
    and "parseDate env t2 = Some 120000" and "parseDate env t3 = Some 180000"
  shows "alignPricesByTimestamp env
     [\<lparr>ticker = s, price = a0, timestamp = t0\<rparr>,
      \<lparr>ticker = s, price = a1, timestamp = t1\<rparr>,
      \<lparr>ticker = s, price = a2, timestamp = t2\<rparr>]
     [\<lparr>ticker = s', price = b1, timestamp = t1\<rparr>,
      \<lparr>ticker = s', price = b2, timestamp = t2\<rparr>,
      \<lparr>ticker = s', price = b3, timestamp = t3\<rparr>]
   = Inr [\<lparr>price1 = a1, price2 = b1\<rparr>, \<lparr>price1 = a2, price2 = b2\<rparr>]"
  by (simp add: alignPricesByTimestamp_def timeMapOf_def
      roundedTime_fixed_offset[OF assms(1,2,3)] roundedTime_fixed_offset[OF assms(1,2,4)]
      roundedTime_fixed_offset[OF assms(1,2,5)] roundedTime_fixed_offset[OF assms(1,2,6)])

lemma roundedTime_newYork:
  "roundedTime newYork ''2024-11-03T05:30:00.000Z'' = Inr 1730611800000"
  "roundedTime newYork ''2024-11-03T06:30:00.000Z'' = Inr 1730611800000"
  by (simp_all add: roundedTime_def newYork_def)

text \<open>
  C5. Alignment as a join on minute buckets. The key of a sample is computed from the
  fields of its local time, and across a clock change local time is not one to one. In
  the zone America/New_York the samples of 05:30 UTC and of 06:30 UTC on 3 November
  2024 both read 01:30 on the local clock. \<open>roundedTime\<close> gives the second sample the
  key 05:30 UTC, which is not its time stamp cut to the minute, and
  \<open>alignPricesByTimestamp\<close> returns one pair for two series that share no minute.
\<close>

theorem alignPricesByTimestamp_clock_change:
  "roundedTime newYork ''2024-11-03T06:30:00.000Z'' = Inr 1730611800000
   \<and> minuteBuckets newYork
        [\<lparr>ticker = ''A'', price = 1, timestamp = ''2024-11-03T05:30:00.000Z''\<rparr>] = {1730611800000}
   \<and> minuteBuckets newYork
        [\<lparr>ticker = ''B'', price = 2, timestamp = ''2024-11-03T06:30:00.000Z''\<rparr>] = {1730615400000}
   \<and> alignPricesByTimestamp newYork
        [\<lparr>ticker = ''A'', price = 1, timestamp = ''2024-11-03T05:30:00.000Z''\<rparr>]
        [\<lparr>ticker = ''B'', price = 2, timestamp = ''2024-11-03T06:30:00.000Z''\<rparr>]
      = Inr [\<lparr>price1 = 1, price2 = 2\<rparr>]"
proof -
  have "minuteBuckets newYork
        [\<lparr>ticker = ''A'', price = 1, timestamp = ''2024-11-03T05:30:00.000Z''\<rparr>] = {1730611800000}"
    by (simp add: minuteBuckets_def newYork_def)
  moreover have "minuteBuckets newYork
        [\<lparr>ticker = ''B'', price = 2, timestamp = ''2024-11-03T06:30:00.000Z''\<rparr>] = {1730615400000}"
    by (simp add: minuteBuckets_def newYork_def)
  moreover have "alignPricesByTimestamp newYork
        [\<lparr>ticker = ''A'', price = 1, timestamp = ''2024-11-03T05:30:00.000Z''\<rparr>]
        [\<lparr>ticker = ''B'', price = 2, timestamp = ''2024-11-03T06:30:00.000Z''\<rparr>]
      = Inr [\<lparr>price1 = 1, price2 = 2\<rparr>]"
    by (simp add: alignPricesByTimestamp_def timeMapOf_def roundedTime_newYork)
  ultimately show ?thesis by (simp add: roundedTime_newYork)
qed


section \<open>The correlation matrix\<close>

lemma setCell_Inr:
  assumes "t1 \<in> dom m"
  shows "\<exists>m'. setCell m t1 t2 v = Inr m' \<and> dom m' = dom m
           \<and> (\<forall>x y. cell m' x y = (if x = t1 \<and> y = t2 then Some v else cell m x y))"
proof -
  obtain row where "m t1 = Some row" using assms by blast
  then show ?thesis by (auto simp add: setCell_def cell_def)
qed

lemma setCell_both:
  assumes "t1 \<in> dom m" "t2 \<in> dom m"
  shows "\<exists>m'. (case setCell m t1 t2 v of Inl e \<Rightarrow> Inl e | Inr m1 \<Rightarrow> setCell m1 t2 t1 v) = Inr m'
           \<and> dom m' = dom m
           \<and> (\<forall>x y. cell m' x y =
                 (if (x = t1 \<and> y = t2) \<or> (x = t2 \<and> y = t1) then Some v else cell m x y))"
proof -
  obtain m1 where m1: "setCell m t1 t2 v = Inr m1" "dom m1 = dom m"
    "\<forall>x y. cell m1 x y = (if x = t1 \<and> y = t2 then Some v else cell m x y)"
    using setCell_Inr[OF assms(1)] by blast
  obtain m2 where m2: "setCell m1 t2 t1 v = Inr m2" "dom m2 = dom m1"
    "\<forall>x y. cell m2 x y = (if x = t2 \<and> y = t1 then Some v else cell m1 x y)"
    using setCell_Inr[of t2 m1] assms(2) m1(2) by blast
  have "(case setCell m t1 t2 v of Inl e \<Rightarrow> Inl e | Inr m1 \<Rightarrow> setCell m1 t2 t1 v) = Inr m2"
    using m1(1) m2(1) by simp
  moreover have "dom m2 = dom m" using m1(2) m2(2) by simp
  moreover have "\<forall>x y. cell m2 x y =
                 (if (x = t1 \<and> y = t2) \<or> (x = t2 \<and> y = t1) then Some v else cell m x y)"
  proof (intro allI)
    fix x y
    show "cell m2 x y =
            (if (x = t1 \<and> y = t2) \<or> (x = t2 \<and> y = t1) then Some v else cell m x y)"
      using m1(3)[rule_format, of x y] m2(3)[rule_format, of x y] by argo
  qed
  ultimately show ?thesis by blast
qed

lemma forEach_prefix_invariant_aux:
  assumes step: "\<And>pre x s. I pre s \<Longrightarrow> x \<in> set xs \<Longrightarrow> \<exists>s'. f s x = Inr s' \<and> I (pre @ [x]) s'"
  shows "I pre s \<Longrightarrow> set ys \<subseteq> set xs \<Longrightarrow> \<exists>s'. forEach f ys s = Inr s' \<and> I (pre @ ys) s'"
proof (induction ys arbitrary: pre s)
  case Nil
  then show ?case by simp
next
  case (Cons y ys)
  then obtain s1 where s1: "f s y = Inr s1" "I (pre @ [y]) s1"
    using step[of pre s y] by auto
  then show ?case using Cons.IH[of "pre @ [y]" s1] Cons.prems by simp
qed

lemma forEach_prefix_invariant:
  assumes "I [] s"
    and "\<And>pre x s. I pre s \<Longrightarrow> x \<in> set xs \<Longrightarrow> \<exists>s'. f s x = Inr s' \<and> I (pre @ [x]) s'"
  shows "\<exists>s'. forEach f xs s = Inr s' \<and> I xs s'"
  using forEach_prefix_invariant_aux[of I xs f "[]" s xs] assms by simp

lemma forEach_invariant:
  assumes "I s"
    and "\<And>x s. I s \<Longrightarrow> x \<in> set xs \<Longrightarrow> \<exists>s'. f s x = Inr s' \<and> I s'"
  shows "\<exists>s'. forEach f xs s = Inr s' \<and> I s'"
  using forEach_prefix_invariant[of "\<lambda>_. I" s xs f] assms by simp

lemma forEach_prefix_returned_aux:
  assumes step: "\<And>pre x s s'. I pre s \<Longrightarrow> x \<in> set xs \<Longrightarrow> f s x = Inr s' \<Longrightarrow> I (pre @ [x]) s'"
  shows "I pre s \<Longrightarrow> set ys \<subseteq> set xs \<Longrightarrow> forEach f ys s = Inr s' \<Longrightarrow> I (pre @ ys) s'"
proof (induction ys arbitrary: pre s)
  case Nil
  then show ?case by simp
next
  case (Cons y ys)
  then obtain s1 where s1: "f s y = Inr s1" "forEach f ys s1 = Inr s'"
    by (auto split: sum.splits)
  have "I (pre @ [y]) s1" using step[of pre s y s1] Cons.prems s1(1) by simp
  then show ?case using Cons.IH[of "pre @ [y]" s1] Cons.prems s1(2) by simp
qed

lemma forEach_prefix_returned:
  assumes "I [] s" and "forEach f xs s = Inr s'"
    and "\<And>pre x s s'. I pre s \<Longrightarrow> x \<in> set xs \<Longrightarrow> f s x = Inr s' \<Longrightarrow> I (pre @ [x]) s'"
  shows "I xs s'"
  using forEach_prefix_returned_aux[of I xs f "[]" s xs s'] assms by simp

lemma forEach_returned:
  assumes "I s" and "forEach f xs s = Inr s'"
    and "\<And>x s s'. I s \<Longrightarrow> x \<in> set xs \<Longrightarrow> f s x = Inr s' \<Longrightarrow> I s'"
  shows "I s'"
  using forEach_prefix_returned[of "\<lambda>_. I" s f xs s'] assms by simp

lemma initRow:
  "\<exists>m'. forEach (\<lambda>m ticker2. setCell m ticker1 ticker2 0) tickers (m(ticker1 \<mapsto> Map.empty)) = Inr m'
        \<and> dom m' = insert ticker1 (dom m)
        \<and> (\<forall>x y. cell m' x y =
              (if x = ticker1 then (if y \<in> set tickers then Some 0 else None) else cell m x y))"
proof -
  let ?I = "\<lambda>pre m'. dom m' = insert ticker1 (dom m)
        \<and> (\<forall>x y. cell m' x y =
              (if x = ticker1 then (if y \<in> set pre then Some 0 else None) else cell m x y))"
  have "?I [] (m(ticker1 \<mapsto> Map.empty))" by (auto simp: cell_def)
  moreover have "\<And>pre x s. ?I pre s \<Longrightarrow> x \<in> set tickers \<Longrightarrow>
           \<exists>s'. setCell s ticker1 x 0 = Inr s' \<and> ?I (pre @ [x]) s'"
  proof -
    fix pre x s assume I: "?I pre s"
    then have "ticker1 \<in> dom s" by auto
    from setCell_Inr[OF this, of x 0] obtain s' where
      "setCell s ticker1 x 0 = Inr s'" "dom s' = dom s"
      "\<forall>a b. cell s' a b = (if a = ticker1 \<and> b = x then Some 0 else cell s a b)" by blast
    then show "\<exists>s'. setCell s ticker1 x 0 = Inr s' \<and> ?I (pre @ [x]) s'"
      using I by auto
  qed
  ultimately show ?thesis
    by (rule forEach_prefix_invariant)
qed

lemma initMatrix_Inr:
  "\<exists>m. initMatrix tickers = Inr m \<and> dom m = set tickers
       \<and> (\<forall>x y. cell m x y = (if x \<in> set tickers \<and> y \<in> set tickers then Some 0 else None))"
proof -
  let ?I = "\<lambda>pre m. dom m = set pre
       \<and> (\<forall>x y. cell m x y = (if x \<in> set pre \<and> y \<in> set tickers then Some 0 else None))"
  let ?f = "\<lambda>m ticker1. forEach (\<lambda>m ticker2. setCell m ticker1 ticker2 0) tickers
                        (m(ticker1 \<mapsto> Map.empty))"
  have "?I [] Map.empty" by (simp add: cell_def)
  moreover have "\<And>pre x s. ?I pre s \<Longrightarrow> x \<in> set tickers \<Longrightarrow> \<exists>s'. ?f s x = Inr s' \<and> ?I (pre @ [x]) s'"
  proof -
    fix pre x s assume I: "?I pre s"
    obtain s' where "?f s x = Inr s'" "dom s' = insert x (dom s)"
      "\<forall>a b. cell s' a b = (if a = x then (if b \<in> set tickers then Some 0 else None) else cell s a b)"
      using initRow[of x tickers s] by blast
    then show "\<exists>s'. ?f s x = Inr s' \<and> ?I (pre @ [x]) s'"
      using I by auto
  qed
  ultimately have "\<exists>s'. forEach ?f tickers Map.empty = Inr s' \<and> ?I tickers s'"
    by (rule forEach_prefix_invariant)
  then show ?thesis by (simp add: initMatrix_def)
qed

lemma written_sym: "written t1 t2 x y \<Longrightarrow> written t1 t2 y x"
  unfolding written_def by blast

lemma written_diag: "written t1 t2 a a \<Longrightarrow> t1 = t2"
  unfolding written_def by blast

lemma written_self: "written t t t t"
  unfolding written_def by blast

lemma setCell_written:
  assumes "t1 \<in> dom m" "t2 \<in> dom m"
  shows "\<exists>m'. (case setCell m t1 t2 v of Inl e \<Rightarrow> Inl e | Inr m1 \<Rightarrow> setCell m1 t2 t1 v) = Inr m'
           \<and> dom m' = dom m
           \<and> (\<forall>x y. cell m' x y = (if written t1 t2 x y then Some v else cell m x y))"
  using setCell_both[OF assms, of v] unfolding written_def .

lemma setCell_written_self:
  assumes "t \<in> dom m"
  shows "\<exists>m'. setCell m t t v = Inr m' \<and> dom m' = dom m
           \<and> (\<forall>x y. cell m' x y = (if written t t x y then Some v else cell m x y))"
proof -
  have "written t t x y \<longleftrightarrow> x = t \<and> y = t" for x y
    unfolding written_def by blast
  then show ?thesis using setCell_Inr[OF assms, of t v] by presburger
qed

lemma alignPricesByTimestamp_cases:
  "(\<exists>alignedPrices. alignPricesByTimestamp env series1 series2 = Inr alignedPrices)
   \<or> alignPricesByTimestamp env series1 series2 = Inl RangeError"
proof (cases "entries env series1 = None \<or> entries env series2 = None")
  case True
  then show ?thesis by (simp add: alignPricesByTimestamp_RangeError)
next
  case False
  then obtain samples1 samples2 where
    "entries env series1 = Some samples1" "entries env series2 = Some samples2" by auto
  then show ?thesis by (simp add: alignPricesByTimestamp_eq)
qed

lemma alignPricesByTimestamp_valid:
  assumes "datesValid env stockData"
    and "map_of stockData ticker1 = Some series1" and "map_of stockData ticker2 = Some series2"
  shows "\<exists>alignedPrices. alignPricesByTimestamp env series1 series2 = Inr alignedPrices"
proof -
  have "series1 \<in> snd ` set stockData" "series2 \<in> snd ` set stockData"
    using assms(2,3) by (auto dest!: map_of_SomeD intro: rev_image_eqI)
  then have "entries env series1 \<noteq> None" "entries env series2 \<noteq> None"
    using assms(1) unfolding datesValid_def entries_None_iff by blast+
  then obtain samples1 samples2 where
    "entries env series1 = Some samples1" "entries env series2 = Some samples2" by auto
  then show ?thesis by (simp add: alignPricesByTimestamp_eq)
qed

text \<open>
  One step of the inner loop of \<open>processStockData\<close>: it writes the two cells
  \<open>(ticker1, ticker2)\<close> and \<open>(ticker2, ticker1)\<close> with one value, or the diagonal cell
  with \<open>1\<close>, or nothing; or the alignment throws its \<^verbatim>\<open>RangeError\<close>.
\<close>

lemma processPair_cases:
  assumes "ticker1 \<in> dom m" "ticker2 \<in> dom m"
    and "ticker1 \<in> fst ` set stockData" "ticker2 \<in> fst ` set stockData"
  shows "(\<exists>m' v. processPair env stockData ticker1 m ticker2 = Inr m' \<and> dom m' = dom m
           \<and> (\<forall>x y. cell m' x y =
                 (if ticker1 \<le> ticker2 \<and> written ticker1 ticker2 x y
                  then Some (if ticker1 = ticker2 then 1 else v) else cell m x y)))
         \<or> (processPair env stockData ticker1 m ticker2 = Inl RangeError
            \<and> \<not> datesValid env stockData)"
proof -
  obtain series1 series2 where s: "map_of stockData ticker1 = Some series1"
      "map_of stockData ticker2 = Some series2"
    using assms(3,4) by (metis domD dom_map_of_conv_image_fst)
  consider "ticker1 = ticker2" | "ticker1 \<noteq> ticker2" "ticker1 < ticker2"
    | "ticker1 \<noteq> ticker2" "\<not> ticker1 < ticker2" by blast
  then show ?thesis
  proof cases
    case 1
    obtain m' where m': "setCell m ticker1 ticker1 1 = Inr m'" "dom m' = dom m"
      "\<forall>x y. cell m' x y = (if written ticker1 ticker1 x y then Some 1 else cell m x y)"
      using setCell_written_self[OF assms(1), of 1] by blast
    have "processPair env stockData ticker1 m ticker2 = Inr m'"
      using 1 m'(1) by (simp add: processPair_def)
    then show ?thesis using 1 m'(2,3) by simp
  next
    case 2
    show ?thesis
    proof (cases "alignPricesByTimestamp env series1 series2")
      case (Inl e)
      then have e: "alignPricesByTimestamp env series1 series2 = Inl RangeError"
        using alignPricesByTimestamp_cases[of env series1 series2] by auto
      then have "\<not> datesValid env stockData"
        using alignPricesByTimestamp_valid[OF _ s, of env] by auto
      moreover have "processPair env stockData ticker1 m ticker2 = Inl RangeError"
        using 2 s e by (simp add: processPair_def)
      ultimately show ?thesis by simp
    next
      case (Inr alignedPrices)
      let ?v = "calculateCorrelation (map price1 alignedPrices) (map price2 alignedPrices)"
      obtain m' where m': "(case setCell m ticker1 ticker2 ?v of Inl e \<Rightarrow> Inl e
                             | Inr m1 \<Rightarrow> setCell m1 ticker2 ticker1 ?v) = Inr m'"
        "dom m' = dom m"
        "\<forall>x y. cell m' x y = (if written ticker1 ticker2 x y then Some ?v else cell m x y)"
        using setCell_written[OF assms(1,2), of ?v] by blast
      have "processPair env stockData ticker1 m ticker2 = Inr m'"
        using 2 s Inr m'(1) by (simp add: processPair_def Let_def)
      moreover have "\<forall>x y. cell m' x y =
                   (if ticker1 \<le> ticker2 \<and> written ticker1 ticker2 x y
                    then Some (if ticker1 = ticker2 then 1 else ?v) else cell m x y)"
        using 2 m'(3) by simp
      ultimately show ?thesis using m'(2) by blast
    qed
  next
    case 3
    then have "processPair env stockData ticker1 m ticker2 = Inr m"
      by (simp add: processPair_def)
    moreover have "\<not> ticker1 \<le> ticker2" using 3 by auto
    ultimately show ?thesis by simp
  qed
qed

lemma processPair_Inr:
  assumes "ticker1 \<in> dom m" "ticker2 \<in> dom m"
    and "ticker1 \<in> fst ` set stockData" "ticker2 \<in> fst ` set stockData"
    and "datesValid env stockData"
  shows "\<exists>m' v. processPair env stockData ticker1 m ticker2 = Inr m' \<and> dom m' = dom m
           \<and> (\<forall>x y. cell m' x y =
                 (if ticker1 \<le> ticker2 \<and> written ticker1 ticker2 x y
                  then Some (if ticker1 = ticker2 then 1 else v) else cell m x y))"
  using processPair_cases[OF assms(1-4), of env] assms(5) by blast

lemma processPair_returned:
  assumes "ticker1 \<in> dom m" "ticker2 \<in> dom m"
    and "ticker1 \<in> fst ` set stockData" "ticker2 \<in> fst ` set stockData"
    and "processPair env stockData ticker1 m ticker2 = Inr m'"
  shows "dom m' = dom m
           \<and> (\<exists>v. \<forall>x y. cell m' x y =
                 (if ticker1 \<le> ticker2 \<and> written ticker1 ticker2 x y
                  then Some (if ticker1 = ticker2 then 1 else v) else cell m x y))"
  using processPair_cases[OF assms(1-4), of env] assms(5) by auto

lemma symmetricOnI:
  assumes "dom m = T" "\<And>x y. cell m x y = cell m y x"
    "\<And>x y. x \<in> T \<Longrightarrow> y \<in> T \<Longrightarrow> cell m x y \<noteq> None"
  shows "symmetricOn T m"
  unfolding symmetricOn_def using assms by blast

lemma written_update_symmetricOn:
  assumes I: "symmetricOn T m" and d: "dom m' = dom m"
    and c: "\<And>x y. cell m' x y = (if b \<and> written t1 t2 x y then Some v else cell m x y)"
  shows "symmetricOn T m'"
proof (rule symmetricOnI)
  show "dom m' = T" using I d by (simp add: symmetricOn_def)
next
  fix x y
  have "cell m x y = cell m y x" using I unfolding symmetricOn_def by blast
  then show "cell m' x y = cell m' y x"
    using c[of x y] c[of y x] written_sym[of t1 t2 x y] written_sym[of t1 t2 y x]
    by (cases "written t1 t2 x y"; cases "written t1 t2 y x") simp_all
next
  fix x y assume "x \<in> T" "y \<in> T"
  then have "cell m x y \<noteq> None" using I unfolding symmetricOn_def by blast
  then show "cell m' x y \<noteq> None" using c[of x y] by simp
qed

lemma processPair_symmetric:
  assumes I: "symmetricOn (fst ` set stockData) m"
    and T: "ticker1 \<in> fst ` set stockData" "ticker2 \<in> fst ` set stockData"
    and r: "processPair env stockData ticker1 m ticker2 = Inr m'"
  shows "symmetricOn (fst ` set stockData) m'"
proof -
  have "ticker1 \<in> dom m" "ticker2 \<in> dom m"
    using I T by (simp_all add: symmetricOn_def)
  from processPair_returned[OF this T r]
  obtain v where d: "dom m' = dom m"
    and c: "\<And>x y. cell m' x y =
                 (if ticker1 \<le> ticker2 \<and> written ticker1 ticker2 x y
                  then Some (if ticker1 = ticker2 then 1 else v) else cell m x y)"
    by blast
  show ?thesis
    using I d c by (rule written_update_symmetricOn)
qed

lemma initMatrix_symmetricOn:
  "\<exists>m. initMatrix tickers = Inr m \<and> symmetricOn (set tickers) m"
proof -
  obtain m0 where m0: "initMatrix tickers = Inr m0" "dom m0 = set tickers"
    "\<forall>x y. cell m0 x y = (if x \<in> set tickers \<and> y \<in> set tickers then Some 0 else None)"
    using initMatrix_Inr[of tickers] by blast
  have "symmetricOn (set tickers) m0"
    using m0(2,3) by (intro symmetricOnI) auto
  then show ?thesis using m0(1) by blast
qed

text \<open>
  \<open>processStockData\<close> returns a matrix when every time stamp of the input is a date,
  and every matrix it returns is defined on all pairs of symbols, equals its transpose
  and has \<open>1\<close> on the diagonal.
\<close>

lemma processStockData_Inr:
  assumes "datesValid env stockData"
  shows "\<exists>m. processStockData env stockData = Inr m"
proof -
  let ?T = "fst ` set stockData"
  let ?tickers = "map fst stockData"
  obtain m0 where m0: "initMatrix ?tickers = Inr m0" "dom m0 = set ?tickers"
    using initMatrix_Inr[of ?tickers] by blast
  have inner: "\<exists>m'. forEach (processPair env stockData t1) ?tickers m = Inr m' \<and> dom m' = ?T"
    if "dom m = ?T" "t1 \<in> set ?tickers" for m t1
  proof (rule forEach_invariant[of "\<lambda>m. dom m = ?T", OF that(1)])
    fix t2 and s :: matrix assume "dom s = ?T" "t2 \<in> set ?tickers"
    then show "\<exists>s'. processPair env stockData t1 s t2 = Inr s' \<and> dom s' = ?T"
      using processPair_Inr[of t1 s t2 stockData env] that(2) assms by auto
  qed
  have "dom m0 = ?T" using m0(2) by simp
  then have "\<exists>m. forEach (\<lambda>m ticker1. forEach (processPair env stockData ticker1) ?tickers m)
                  ?tickers m0 = Inr m \<and> dom m = ?T"
    using inner by (rule forEach_invariant[of "\<lambda>m. dom m = ?T"])
  then show ?thesis
    using m0(1) by (auto simp add: processStockData_def Let_def)
qed

lemma processStockData_symmetricOn:
  assumes "processStockData env stockData = Inr m"
  shows "symmetricOn (fst ` set stockData) m"
proof -
  let ?T = "fst ` set stockData"
  let ?tickers = "map fst stockData"
  obtain m0 where m0: "initMatrix ?tickers = Inr m0" "symmetricOn ?T m0"
    using initMatrix_symmetricOn[of ?tickers] by auto
  have r: "forEach (\<lambda>m ticker1. forEach (processPair env stockData ticker1) ?tickers m)
             ?tickers m0 = Inr m"
    using assms m0(1) by (simp add: processStockData_def Let_def)
  show ?thesis
  proof (rule forEach_returned[of "symmetricOn ?T", OF m0(2) r])
    fix t1 s s'
    assume s: "symmetricOn ?T s" and t1: "t1 \<in> set ?tickers"
      and r1: "forEach (processPair env stockData t1) ?tickers s = Inr s'"
    show "symmetricOn ?T s'"
    proof (rule forEach_returned[of "symmetricOn ?T", OF s r1])
      fix t2 u u'
      assume "symmetricOn ?T u" "t2 \<in> set ?tickers" "processPair env stockData t1 u t2 = Inr u'"
      then show "symmetricOn ?T u'"
        using processPair_symmetric[of stockData u t1 t2 env u'] t1 by simp
    qed
  qed
qed

lemma processStockData_diagonal:
  assumes "processStockData env stockData = Inr m"
  shows "\<forall>a\<in>fst ` set stockData. cell m a a = Some 1"
proof -
  let ?T = "fst ` set stockData"
  let ?tickers = "map fst stockData"
  let ?I = "\<lambda>pre m. dom m = ?T \<and> (\<forall>a\<in>set pre. cell m a a = Some 1)"
  obtain m0 where m0: "initMatrix ?tickers = Inr m0" "dom m0 = set ?tickers"
    using initMatrix_Inr[of ?tickers] by blast
  have r: "forEach (\<lambda>m ticker1. forEach (processPair env stockData ticker1) ?tickers m)
             ?tickers m0 = Inr m"
    using assms m0(1) by (simp add: processStockData_def Let_def)
  have I0: "?I [] m0" using m0(2) by simp
  have outer: "?I (pre @ [t1]) m'"
    if Im: "?I pre m" and t1: "t1 \<in> set ?tickers"
      and r1: "forEach (processPair env stockData t1) ?tickers m = Inr m'" for pre m t1 m'
  proof -
    let ?J = "\<lambda>pre2 m'. dom m' = ?T \<and> (\<forall>a\<in>set pre. cell m' a a = Some 1)
                 \<and> (t1 \<in> set pre2 \<longrightarrow> cell m' t1 t1 = Some 1)"
    have J0: "?J [] m" using Im by simp
    have step: "?J (pre2 @ [t2]) s'"
      if J: "?J pre2 s" and t2: "t2 \<in> set ?tickers"
        and r2: "processPair env stockData t1 s t2 = Inr s'" for pre2 s t2 s'
    proof -
      have "t1 \<in> dom s" "t2 \<in> dom s" "t1 \<in> ?T" "t2 \<in> ?T"
        using J t1 t2 by simp_all
      from processPair_returned[OF this r2]
      obtain v where d: "dom s' = dom s"
        and c: "\<And>x y. cell s' x y =
                 (if t1 \<le> t2 \<and> written t1 t2 x y
                  then Some (if t1 = t2 then 1 else v) else cell s x y)"
        by blast
      have keep: "cell s' a a = Some 1" if "cell s a a = Some 1" for a
        using c[of a a] written_diag[of t1 t2 a] that
        by (cases "written t1 t2 a a") simp_all
      have new: "cell s' t1 t1 = Some 1" if "t2 = t1"
        using c[of t1 t1] written_self[of t1] that by simp
      show ?thesis using d J keep new by auto
    qed
    have "?J ?tickers m'"
    proof (rule forEach_prefix_returned[of ?J, OF J0 r1])
      fix pre2 t2 s s'
      assume "?J pre2 s" "t2 \<in> set ?tickers" "processPair env stockData t1 s t2 = Inr s'"
      then show "?J (pre2 @ [t2]) s'" by (rule step)
    qed
    then show ?thesis using t1 by auto
  qed
  have "?I ?tickers m"
  proof (rule forEach_prefix_returned[of ?I, OF I0 r])
    fix pre t1 s s'
    assume "?I pre s" "t1 \<in> set ?tickers"
      "forEach (processPair env stockData t1) ?tickers s = Inr s'"
    then show "?I (pre @ [t1]) s'" by (rule outer)
  qed
  then show ?thesis by auto
qed

lemma heatmapPair_Inr:
  assumes "ticker1 \<in> dom m" "ticker2 \<in> dom m"
    and "ticker1 \<in> fst ` set stockData" "ticker2 \<in> fst ` set stockData"
  shows "\<exists>m' v. heatmapPair stockData (i, ticker1) m (j, ticker2) = Inr m' \<and> dom m' = dom m
           \<and> (\<forall>x y. cell m' x y =
                 (if i \<le> j \<and> written ticker1 ticker2 x y then Some v else cell m x y))"
proof -
  obtain series1 series2 where s: "map_of stockData ticker1 = Some series1"
      "map_of stockData ticker2 = Some series2"
    using assms(3,4) by (metis domD dom_map_of_conv_image_fst)
  define a1 where "a1 = take (min (length (map price series1)) (length (map price series2)))
                             (map price series1)"
  define a2 where "a2 = take (min (length (map price series1)) (length (map price series2)))
                             (map price series2)"
  define v where "v = (if length a1 = 0 then 0 else heatmapCorrelation a1 a2)"
  show ?thesis
  proof (cases "i \<le> j")
    case True
    obtain m' where m': "(case setCell m ticker1 ticker2 v of Inl e \<Rightarrow> Inl e
                           | Inr m1 \<Rightarrow> setCell m1 ticker2 ticker1 v) = Inr m'"
      "dom m' = dom m"
      "\<forall>x y. cell m' x y = (if written ticker1 ticker2 x y then Some v else cell m x y)"
      using setCell_written[OF assms(1,2), of v] by blast
    have "heatmapPair stockData (i, ticker1) m (j, ticker2) =
            (if length a1 = 0
             then (case setCell m ticker1 ticker2 0 of Inl e \<Rightarrow> Inl e
                   | Inr m1 \<Rightarrow> setCell m1 ticker2 ticker1 0)
             else (case setCell m ticker1 ticker2 (heatmapCorrelation a1 a2) of Inl e \<Rightarrow> Inl e
                   | Inr m1 \<Rightarrow> setCell m1 ticker2 ticker1 (heatmapCorrelation a1 a2)))"
      using True s unfolding heatmapPair_def Let_def a1_def a2_def by simp
    then have "heatmapPair stockData (i, ticker1) m (j, ticker2) = Inr m'"
      using m'(1) unfolding v_def by (cases "length a1 = 0") (simp_all split: sum.splits)
    moreover have "\<forall>x y. cell m' x y =
                 (if i \<le> j \<and> written ticker1 ticker2 x y then Some v else cell m x y)"
      using True m'(3) by simp
    ultimately show ?thesis using m'(2) by blast
  next
    case False
    then have "heatmapPair stockData (i, ticker1) m (j, ticker2) = Inr m"
      by (simp add: heatmapPair_def)
    then show ?thesis using False by simp
  qed
qed

lemma symmetricOnD:
  "symmetricOn T m \<Longrightarrow> a \<in> T \<Longrightarrow> b \<in> T \<Longrightarrow> cell m a b \<noteq> None \<and> cell m a b = cell m b a"
  unfolding symmetricOn_def by blast

lemma heatmapPair_symmetric:
  assumes I: "symmetricOn (fst ` set stockData) m"
    and T: "snd it1 \<in> fst ` set stockData" "snd jt2 \<in> fst ` set stockData"
  shows "\<exists>m'. heatmapPair stockData it1 m jt2 = Inr m'
            \<and> symmetricOn (fst ` set stockData) m'"
proof -
  obtain i ticker1 j ticker2 where p: "it1 = (i, ticker1)" "jt2 = (j, ticker2)"
    by (cases it1, cases jt2) blast
  have "ticker1 \<in> dom m" "ticker2 \<in> dom m" "ticker1 \<in> fst ` set stockData"
      "ticker2 \<in> fst ` set stockData"
    using I T p by (simp_all add: symmetricOn_def)
  from heatmapPair_Inr[OF this, of i j]
  obtain m' v where m': "heatmapPair stockData (i, ticker1) m (j, ticker2) = Inr m'" "dom m' = dom m"
    and c: "\<And>x y. cell m' x y =
                 (if i \<le> j \<and> written ticker1 ticker2 x y then Some v else cell m x y)"
    by blast
  have "symmetricOn (fst ` set stockData) m'"
    using I m'(2) c by (rule written_update_symmetricOn)
  then show ?thesis using m'(1) p by blast
qed

lemma heatmapMatrix_symmetricOn:
  "\<exists>m. heatmapMatrix stockData = Inr m \<and> symmetricOn (fst ` set stockData) m"
proof -
  let ?T = "fst ` set stockData"
  let ?tickers = "map fst stockData"
  let ?its = "enumerate 0 ?tickers"
  obtain m0 where m0: "initMatrix ?tickers = Inr m0" "symmetricOn ?T m0"
    using initMatrix_symmetricOn[of ?tickers] by auto
  have mem: "snd it \<in> ?T" if "it \<in> set ?its" for it
  proof -
    have "fst it < length ?tickers" "?tickers ! fst it = snd it"
      using that by (simp_all add: in_set_enumerate_eq)
    then show ?thesis by (metis nth_mem set_map)
  qed
  have inner: "\<exists>m'. forEach (heatmapPair stockData it1) ?its m = Inr m' \<and> symmetricOn ?T m'"
    if "symmetricOn ?T m" "it1 \<in> set ?its" for m it1
  proof (rule forEach_invariant[of "symmetricOn ?T", OF that(1)])
    fix jt2 s assume "symmetricOn ?T s" "jt2 \<in> set ?its"
    then show "\<exists>s'. heatmapPair stockData it1 s jt2 = Inr s' \<and> symmetricOn ?T s'"
      using heatmapPair_symmetric[of stockData s it1 jt2] mem that(2) by blast
  qed
  have "\<exists>m. forEach (\<lambda>m it1. forEach (heatmapPair stockData it1) ?its m) ?its m0 = Inr m
          \<and> symmetricOn ?T m"
    using m0(2) inner by (rule forEach_invariant[of "symmetricOn ?T"])
  then show ?thesis
    using m0(1) by (simp add: heatmapMatrix_def Let_def)
qed

text \<open>
  C3. The correlation matrix is symmetric. \<open>processStockData\<close> returns a matrix
  whenever every time stamp of the input is a date (on a time stamp that is no date
  \<^verbatim>\<open>toISOString\<close> throws and no matrix is built), and the matrix of the component
  \<open>CorrelationHeatmap\<close>, which reads no time stamp, is returned for every input. Every
  matrix that either builder returns is defined on every pair of symbols of the input and
  equals its transpose: \<open>matrix[a][b] = matrix[b][a]\<close> for all symbols \<open>a\<close>, \<open>b\<close>.
\<close>

theorem correlation_matrix_symmetric:
  "(datesValid env stockData \<longrightarrow> (\<exists>m. processStockData env stockData = Inr m))
   \<and> (\<forall>m. processStockData env stockData = Inr m \<longrightarrow>
        (\<forall>a\<in>fst ` set stockData. \<forall>b\<in>fst ` set stockData.
              cell m a b \<noteq> None \<and> cell m a b = cell m b a))
   \<and> (\<exists>m. heatmapMatrix stockData = Inr m
        \<and> (\<forall>a\<in>fst ` set stockData. \<forall>b\<in>fst ` set stockData.
              cell m a b \<noteq> None \<and> cell m a b = cell m b a))"
proof -
  obtain m2 where m2: "heatmapMatrix stockData = Inr m2" "symmetricOn (fst ` set stockData) m2"
    using heatmapMatrix_symmetricOn[of stockData] by blast
  have "\<forall>a\<in>fst ` set stockData. \<forall>b\<in>fst ` set stockData.
              cell m a b \<noteq> None \<and> cell m a b = cell m b a"
    if "processStockData env stockData = Inr m" for m
    using symmetricOnD[OF processStockData_symmetricOn[OF that]] by blast
  then show ?thesis
    using processStockData_Inr[of env stockData] m2(1) symmetricOnD[OF m2(2)] by blast
qed

theorem correlation_matrix_symmetric_witness:
  "datesValid newYork
     [(''A'', [\<lparr>ticker = ''A'', price = 1, timestamp = ''2024-11-03T05:30:00.000Z''\<rparr>]),
      (''B'', [\<lparr>ticker = ''B'', price = 2, timestamp = ''2024-11-03T06:30:00.000Z''\<rparr>])]
   \<and> (\<exists>m. processStockData newYork
          [(''A'', [\<lparr>ticker = ''A'', price = 1, timestamp = ''2024-11-03T05:30:00.000Z''\<rparr>]),
           (''B'', [\<lparr>ticker = ''B'', price = 2, timestamp = ''2024-11-03T06:30:00.000Z''\<rparr>])] = Inr m
        \<and> cell m ''A'' ''B'' \<noteq> None \<and> cell m ''A'' ''B'' = cell m ''B'' ''A'')
   \<and> (\<exists>m. heatmapMatrix
          [(''A'', [\<lparr>ticker = ''A'', price = 1, timestamp = ''2024-11-03T05:30:00.000Z''\<rparr>]),
           (''B'', [\<lparr>ticker = ''B'', price = 2, timestamp = ''2024-11-03T06:30:00.000Z''\<rparr>])] = Inr m
        \<and> cell m ''A'' ''B'' \<noteq> None \<and> cell m ''A'' ''B'' = cell m ''B'' ''A'')"
proof -
  let ?sd = "[(''A'', [\<lparr>ticker = ''A'', price = 1, timestamp = ''2024-11-03T05:30:00.000Z''\<rparr>]),
              (''B'', [\<lparr>ticker = ''B'', price = 2, timestamp = ''2024-11-03T06:30:00.000Z''\<rparr>])]"
  have v: "datesValid newYork ?sd"
    by (simp add: datesValid_def newYork_def)
  have T: "''A'' \<in> fst ` set ?sd" "''B'' \<in> fst ` set ?sd" by simp_all
  show ?thesis
    using correlation_matrix_symmetric[of newYork ?sd] v T by blast
qed

lemma processStockData_empty_series:
  assumes "parseDate env ts \<noteq> None"
  shows "\<exists>m. processStockData env
          [(''A'', []), (''B'', [\<lparr>ticker = ''B'', price = b, timestamp = ts\<rparr>])] = Inr m
       \<and> cell m ''A'' ''A'' = Some 1 \<and> cell m ''A'' ''B'' = Some 0
       \<and> cell m ''B'' ''A'' = Some 0 \<and> cell m ''B'' ''B'' = Some 1"
proof -
  obtain t where "parseDate env ts = Some t" using assms by auto
  then show ?thesis
    by (simp add: processStockData_def initMatrix_def setCell_def processPair_def cell_def
        alignPricesByTimestamp_def timeMapOf_def roundedTime_Some calculateCorrelation_def)
qed

text \<open>
  C2. The diagonal of the matrix. \<open>processStockData\<close> stores the constant \<open>1\<close> in
  every self-cell of every matrix it returns (lemma \<open>processStockData_diagonal\<close>). The matrix of the component
  \<open>CorrelationHeatmap\<close> computes the self-cell like every other pair: for a symbol whose
  series is empty the cell holds \<open>0\<close>, and so it does for a series of constant prices.
\<close>

theorem heatmapMatrix_diagonal_empty:
  "\<exists>m. heatmapMatrix [(''A'', [])] = Inr m \<and> cell m ''A'' ''A'' = Some 0"
  by (simp add: heatmapMatrix_def initMatrix_def setCell_def heatmapPair_def cell_def
      enumerate_eq_zip)

lemma heatmapMatrix_diagonal_constant:
  "\<exists>m. heatmapMatrix
         [(''A'', [\<lparr>ticker = ''A'', price = 10, timestamp = t0\<rparr>,
                   \<lparr>ticker = ''A'', price = 10, timestamp = t1\<rparr>])] = Inr m
       \<and> cell m ''A'' ''A'' = Some 0"
  by (simp add: heatmapMatrix_def initMatrix_def setCell_def heatmapPair_def cell_def
      enumerate_eq_zip heatmapCorrelation_def correlationSums_def calculateAverage_def
      Let_def upt_rec)

section \<open>Lag-1 correlation of price changes\<close>

lemma priceChangesFrom_map:
  "0 < i \<Longrightarrow> priceChangesFrom prices i acc =
     acc @ map (\<lambda>k. prices ! (k + 1) - prices ! k) [i - 1..<length prices - 1]"
proof (induction prices i acc rule: priceChangesFrom.induct)
  case (1 prices i acc)
  show ?case
  proof (cases "i < length prices")
    case True
    then have "[i - 1..<length prices - 1] = (i - 1) # [i..<length prices - 1]"
      using "1.prems" by (simp add: upt_conv_Cons)
    then show ?thesis
      using True "1.IH" "1.prems" by (simp add: priceChangesFrom.simps[of prices i])
  next
    case False
    then show ?thesis by (simp add: priceChangesFrom.simps[of prices i])
  qed
qed

lemma priceChangesFrom_differences:
  "priceChangesFrom prices 1 [] =
     map (\<lambda>k. prices ! (k + 1) - prices ! k) [0..<length prices - 1]"
  using priceChangesFrom_map[of 1 prices "[]"] by simp

lemma priceChangesFrom_Suc0:
  "priceChangesFrom prices (Suc 0) [] =
     map (\<lambda>k. prices ! (k + 1) - prices ! k) [0..<length prices - 1]"
  using priceChangesFrom_differences[of prices] by simp

lemma lagOneCorrelation_example: "lagOneCorrelation [10, 10, 10] = 0"
  by (simp add: lagOneCorrelation_def priceChangesFrom_Suc0 upt_rec
      calculateCorrelation_def correlationSums_def calculateAverage_def)

text \<open>
  C6. The lag-1 correlation of a price sequence: the loop forms the first differences
  \<open>prices[i + 1] - prices[i]\<close>, one fewer than there are prices; with at most one
  difference the result is \<open>0\<close>; otherwise it is the correlation of the differences
  without the last one and the differences without the first one. For
  \<open>[10, 10, 10]\<close> the result is \<open>0\<close>.
\<close>

theorem lagOneCorrelation_first_differences:
  "priceChangesFrom prices 1 [] =
     map (\<lambda>k. prices ! (k + 1) - prices ! k) [0..<length prices - 1]
   \<and> length (priceChangesFrom prices 1 []) = length prices - 1
   \<and> (length (priceChangesFrom prices 1 []) \<le> 1 \<longrightarrow> lagOneCorrelation prices = 0)
   \<and> (length (priceChangesFrom prices 1 []) > 1 \<longrightarrow>
        lagOneCorrelation prices =
          calculateCorrelation (butlast (priceChangesFrom prices 1 []))
                               (tl (priceChangesFrom prices 1 [])))
   \<and> lagOneCorrelation [10, 10, 10] = 0"
proof -
  have "length (priceChangesFrom prices 1 []) = length prices - 1"
    by (simp add: priceChangesFrom_Suc0)
  moreover have "length (priceChangesFrom prices 1 []) \<le> 1 \<longrightarrow> lagOneCorrelation prices = 0"
    by (simp add: lagOneCorrelation_def Let_def)
  moreover have "length (priceChangesFrom prices 1 []) > 1 \<longrightarrow>
        lagOneCorrelation prices =
          calculateCorrelation (butlast (priceChangesFrom prices 1 []))
                               (tl (priceChangesFrom prices 1 []))"
    by (simp add: lagOneCorrelation_def Let_def butlast_conv_take drop_Suc)
  ultimately show ?thesis
    using priceChangesFrom_differences[of prices] lagOneCorrelation_example by blast
qed

theorem lagOneCorrelation_first_differences_witness:
  "length (priceChangesFrom [1, 2] 1 []) \<le> 1 \<and> lagOneCorrelation [1, 2] = 0
   \<and> length (priceChangesFrom [1, 2, 4, 7] 1 []) > 1
   \<and> lagOneCorrelation [1, 2, 4, 7] = calculateCorrelation [1, 2] [2, 3]"
  using lagOneCorrelation_first_differences[of "[1, 2]"]
    lagOneCorrelation_first_differences[of "[1, 2, 4, 7]"]
  by (simp add: priceChangesFrom_Suc0 upt_rec)

section \<open>Rounding\<close>

lemma roundTiesToEven_near:
  assumes "\<bar>y - of_int m\<bar> < 1 / 2"
  shows "roundTiesToEven y = m"
proof (cases "of_int m \<le> y")
  case True
  then have "\<lfloor>y\<rfloor> = m" using assms by linarith
  then show ?thesis using assms True by (simp add: roundTiesToEven_def)
next
  case False
  then have f: "\<lfloor>y\<rfloor> = m - 1" using assms by linarith
  have "y - of_int (m - 1) > 1 / 2" using assms False by simp
  then show ?thesis using f by (simp add: roundTiesToEven_def)
qed

lemma roundTiesToEven_tie:
  assumes "y = of_int m + 1 / 2"
  shows "roundTiesToEven y = (if even m then m else m + 1)"
proof -
  have "\<lfloor>y\<rfloor> = m" using assms by linarith
  then show ?thesis using assms by (simp add: roundTiesToEven_def)
qed

lemma floor_log2_eq:
  assumes "2 powi e \<le> x" "x < 2 powi (e + 1)"
  shows "\<lfloor>log 2 x\<rfloor> = e"
proof -
  have p: "(2::real) powr (of_int k) = 2 powi k" for k
    by (simp add: powr_real_of_int')
  have "(0::real) < 2 powi e" by simp
  then have "0 < x" using assms(1) by linarith
  then show ?thesis
    using assms p[of e] p[of "e + 1"] by (simp add: floor_log_eq_powr_iff)
qed

lemma binary64_eqI:
  assumes "2 powi e \<le> \<bar>x\<bar>" "\<bar>x\<bar> < 2 powi (e + 1)" "- 1022 \<le> e"
    and "\<bar>x / 2 powi (e - 52) - of_int m\<bar> < 1 / 2"
  shows "binary64 x = of_int m * 2 powi (e - 52)"
proof -
  have "(0::real) < 2 powi e" by simp
  then have "x \<noteq> 0" using assms(1) by linarith
  moreover have "max \<lfloor>log 2 \<bar>x\<bar>\<rfloor> (- 1022) = e"
    using floor_log2_eq[OF assms(1,2)] assms(3) by simp
  ultimately show ?thesis
    using roundTiesToEven_near[OF assms(4)] by (simp add: binary64_def Let_def)
qed

lemma binary64_tieI:
  assumes "2 powi e \<le> \<bar>x\<bar>" "\<bar>x\<bar> < 2 powi (e + 1)" "- 1022 \<le> e"
    and "x / 2 powi (e - 52) = of_int m + 1 / 2"
  shows "binary64 x = of_int (if even m then m else m + 1) * 2 powi (e - 52)"
proof -
  have "(0::real) < 2 powi e" by simp
  then have "x \<noteq> 0" using assms(1) by linarith
  moreover have "max \<lfloor>log 2 \<bar>x\<bar>\<rfloor> (- 1022) = e"
    using floor_log2_eq[OF assms(1,2)] assms(3) by simp
  ultimately show ?thesis
    using roundTiesToEven_tie[OF assms(4)] by (simp add: binary64_def Let_def)
qed

lemma binary64_0 [simp]: "binary64 0 = 0" by (simp add: binary64_def)

text \<open>
  The rounded value is an integral multiple of the unit in the last place, at most half
  a unit away from the exact one.
\<close>

lemma roundTiesToEven_error: "\<bar>of_int (roundTiesToEven y) - y\<bar> \<le> 1 / 2"
proof -
  define f where "f = \<lfloor>y\<rfloor>"
  have b: "of_int f \<le> y" "y < of_int f + 1" unfolding f_def by linarith+
  consider "y - of_int f < 1 / 2" | "y - of_int f > 1 / 2" | "y - of_int f = 1 / 2"
    by linarith
  then show ?thesis
  proof cases
    case 1
    then have "roundTiesToEven y = f" by (simp add: roundTiesToEven_def f_def)
    then show ?thesis using 1 b by simp
  next
    case 2
    then have "roundTiesToEven y = f + 1" by (simp add: roundTiesToEven_def f_def)
    then show ?thesis using 2 b by simp
  next
    case 3
    then have "roundTiesToEven y = f \<or> roundTiesToEven y = f + 1"
      by (simp add: roundTiesToEven_def f_def Let_def)
    then show ?thesis using 3 by auto
  qed
qed

lemma binary64_error:
  assumes "x \<noteq> 0" and "u = 2 powi (max \<lfloor>log 2 \<bar>x\<bar>\<rfloor> (- 1022) - 52)"
  shows "\<bar>binary64 x - x\<bar> \<le> u / 2"
proof -
  have u: "0 < u" using assms(2) by simp
  define m where "m = roundTiesToEven (x / u)"
  have "\<bar>of_int m - x / u\<bar> \<le> 1 / 2"
    unfolding m_def by (rule roundTiesToEven_error)
  then have "\<bar>of_int m - x / u\<bar> * u \<le> 1 / 2 * u"
    using u by (intro mult_right_mono) simp_all
  moreover have "\<bar>of_int m - x / u\<bar> * u = \<bar>(of_int m - x / u) * u\<bar>"
    using u by (simp add: abs_mult)
  moreover have "(of_int m - x / u) * u = of_int m * u - x"
    using u by (simp add: left_diff_distrib)
  moreover have "binary64 x = of_int m * u"
    using assms by (simp add: binary64_def Let_def m_def)
  ultimately show ?thesis by simp
qed

lemma binary64_sqrt_eqI:
  assumes "(2 powi e)\<^sup>2 \<le> a" "a < (2 powi (e + 1))\<^sup>2" "- 1022 \<le> e"
    and "((of_int m - 1 / 2) * 2 powi (e - 52))\<^sup>2 < a"
    and "a < ((of_int m + 1 / 2) * 2 powi (e - 52))\<^sup>2"
    and "1 \<le> m"
  shows "binary64 (sqrt a) = of_int m * 2 powi (e - 52)"
proof (rule binary64_eqI[OF _ _ assms(3)])
  have "(0::real) \<le> (2 powi e)\<^sup>2" by simp
  then have a: "0 \<le> a" using assms(1) by linarith
  have u: "(0::real) < 2 powi (e - 52)" by simp
  show "2 powi e \<le> \<bar>sqrt a\<bar>"
    using assms(1) a by (simp add: real_le_rsqrt)
  show "\<bar>sqrt a\<bar> < 2 powi (e + 1)"
    using assms(2) a by (simp add: real_less_lsqrt)
  have "(of_int m - 1 / 2) * 2 powi (e - 52) < sqrt a"
    using assms(4) by (rule real_less_rsqrt)
  moreover have "sqrt a < (of_int m + 1 / 2) * 2 powi (e - 52)"
    using assms(5,6) a by (intro real_less_lsqrt) simp_all
  ultimately have "of_int m - 1 / 2 < sqrt a / 2 powi (e - 52)"
      "sqrt a / 2 powi (e - 52) < of_int m + 1 / 2"
    using u by (simp_all add: pos_less_divide_eq pos_divide_less_eq)
  then show "\<bar>sqrt a / 2 powi (e - 52) - of_int m\<bar> < 1 / 2" by linarith
qed

lemma heatmapCorrelation_clamped:
  "- 1 \<le> heatmapCorrelation xs ys \<and> heatmapCorrelation xs ys \<le> 1"
  by (simp add: heatmapCorrelation_def Let_def split: prod.splits)

lemma heatmapCorrelation64_clamped:
  "- 1 \<le> heatmapCorrelation64 xs ys \<and> heatmapCorrelation64 xs ys \<le> 1"
  by (simp add: heatmapCorrelation64_def Let_def split: prod.splits)

lemma calculateCorrelation64_trivial:
  "length xs \<noteq> length ys \<or> xs = [] \<Longrightarrow> calculateCorrelation64 xs ys = 0"
  unfolding calculateCorrelation64_def by auto

lemma correlationSums64_Suc:
  "correlationSums64 xs ys a b (Suc n) =
     (case correlationSums64 xs ys a b n of
        (covariance, variance1, variance2) \<Rightarrow>
          (fadd covariance (fmul (fsub (xs ! n) a) (fsub (ys ! n) b)),
           fadd variance1 (fmul (fsub (xs ! n) a) (fsub (xs ! n) a)),
           fadd variance2 (fmul (fsub (ys ! n) b) (fsub (ys ! n) b))))"
  by (simp add: correlationSums64_def Let_def split: prod.splits)

lemma correlationSums64_constant:
  assumes "\<forall>i<n. xs ! i = c"
  shows "fst (snd (correlationSums64 xs ys c b n)) = 0"
  using assms
proof (induction n)
  case 0
  then show ?case by (simp add: correlationSums64_def)
next
  case (Suc n)
  obtain cv v1 v2 where s: "correlationSums64 xs ys c b n = (cv, v1, v2)"
    by (metis prod_cases3)
  then have "v1 = 0" using Suc by simp
  moreover have "xs ! n = c" using Suc.prems by simp
  ultimately show ?case
    by (simp add: correlationSums64_Suc s fsub_def fmul_def fadd_def)
qed

lemma calculateCorrelation64_constant_exact:
  assumes "\<forall>x\<in>set xs. x = c" and "calculateAverage64 xs = c"
  shows "calculateCorrelation64 xs ys = 0"
proof (cases "length xs = length ys \<and> xs \<noteq> []")
  case False
  then show ?thesis using calculateCorrelation64_trivial[of xs ys] by auto
next
  case True
  have "\<forall>i<length xs. xs ! i = c" using assms(1) by simp
  then have "fst (snd (correlationSums64 xs ys c (calculateAverage64 ys) (length xs))) = 0"
    by (rule correlationSums64_constant)
  then show ?thesis
    using True assms(2)
    by (auto simp add: calculateCorrelation64_def Let_def split: prod.splits)
qed

lemma avg_0_3: "calculateAverage64 [0, 3] = 3 / 2"
proof -
  have "binary64 3 = 3" using binary64_eqI[of 1 3 "3 * 2 ^ 51"] by simp
  moreover have "binary64 (3 / 2) = 3 / 2" using binary64_eqI[of 0 "3 / 2" "3 * 2 ^ 51"] by simp
  ultimately show ?thesis by (simp add: calculateAverage64_def fadd_def fdiv_def)
qed

lemma sums_0_3:
  "correlationSums64 [0, 3] [0, 3] (3 / 2) (3 / 2) (Suc (Suc 0)) = (9 / 2, 9 / 2, 9 / 2)"
proof -
  have d1: "fsub 0 (3 / 2) = - (3 / 2)"
    using binary64_eqI[of 0 "- (3 / 2)" "- (3 * 2 ^ 51)"] by (simp add: fsub_def)
  have d2: "fsub 3 (3 / 2) = 3 / 2"
    using binary64_eqI[of 0 "3 / 2" "3 * 2 ^ 51"] by (simp add: fsub_def)
  have q: "binary64 (9 / 4) = 9 / 4" using binary64_eqI[of 1 "9 / 4" "9 * 2 ^ 49"] by simp
  have h: "binary64 (9 / 2) = 9 / 2" using binary64_eqI[of 2 "9 / 2" "9 * 2 ^ 49"] by simp
  show ?thesis
    by (simp add: correlationSums64_def upt_rec d1 d2 fmul_def fadd_def q h)
qed

lemma sqrt_9_2: "fsqrt (9 / 2) = 4776788754394329 * 2 powi (- 51)"
  unfolding fsqrt_def
  using binary64_sqrt_eqI[of 1 "9 / 2" 4776788754394329] by (simp add: power2_eq_square)

lemma prod_9_2:
  "fmul (4776788754394329 * 2 powi (- 51)) (4776788754394329 * 2 powi (- 51))
     = 5066549580791807 * 2 powi (- 50)"
  unfolding fmul_def
  using binary64_eqI[of 2 "(4776788754394329 * 2 powi (- 51)) * (4776788754394329 * 2 powi (- 51))"
      5066549580791807]
  by (simp add: abs_if)

lemma quot_9_2:
  "fdiv (9 / 2) (5066549580791807 * 2 powi (- 50)) = 1 + 2 powi (- 52)"
  unfolding fdiv_def
  using binary64_eqI[of 0 "(9 / 2) / (5066549580791807 * 2 powi (- 50))" 4503599627370497]
  by (simp add: abs_if)

lemma heatmapCorrelation64_0_3: "heatmapCorrelation64 [0, 3] [0, 3] = 1"
proof -
  have "heatmapCorrelation64 [0, 3] [0, 3] =
          max (- 1) (min 1 (fdiv (9 / 2) (fmul (fsqrt (9 / 2)) (fsqrt (9 / 2)))))"
    by (simp add: heatmapCorrelation64_def avg_0_3 sums_0_3)
  then show ?thesis unfolding sqrt_9_2 prod_9_2 quot_9_2 by simp
qed

text \<open>
  C1. The range of the correlation. In exact arithmetic the quotient that
  \<open>calculateCorrelation\<close> returns lies in \<open>[-1, 1]\<close> by the Cauchy-Schwarz inequality
  (lemma \<open>calculateCorrelation_abs_le_1\<close>), and the correlation of the heat map is
  clamped into \<open>[-1, 1]\<close> in either arithmetic (lemmas \<open>heatmapCorrelation_clamped\<close>,
  \<open>heatmapCorrelation64_clamped\<close>). \<open>calculateCorrelation\<close> does not clamp: in binary64
  arithmetic it returns \<open>1 + 2\<^sup>-\<^sup>5\<^sup>2\<close>, the number \<^verbatim>\<open>1.0000000000000002\<close>, for the
  sequence \<open>[0, 3]\<close> and itself, where the heat map's correlation returns \<open>1\<close>.
\<close>

theorem calculateCorrelation64_overshoot:
  "calculateCorrelation64 [0, 3] [0, 3] = 1 + 2 powi (- 52)"
proof -
  have "calculateCorrelation64 [0, 3] [0, 3] = fdiv (9 / 2) (fmul (fsqrt (9 / 2)) (fsqrt (9 / 2)))"
    by (simp add: calculateCorrelation64_def avg_0_3 sums_0_3)
  then show ?thesis unfolding sqrt_9_2 prod_9_2 quot_9_2 .
qed

lemma calculateCorrelation64_same3:
  "calculateCorrelation64 [c, c, c] [c, c, c] =
     (let avg = fdiv (fadd (fadd (fadd 0 c) c) c) 3;
          d = fsub c avg;
          p = fmul d d;
          s = fadd (fadd (fadd 0 p) p) p
      in if s = 0 then 0 else fdiv s (fmul (fsqrt s) (fsqrt s)))"
  by (simp add: calculateCorrelation64_def calculateAverage64_def correlationSums64_def
      Let_def upt_rec)

lemma tenth: "binary64 (1 / 10) = 3602879701896397 * 2 powi (- 55)"
  using binary64_eqI[of "- 4" "1 / 10" 7205759403792794] by (simp add: abs_if)

lemma constant_tenths:
  "calculateCorrelation64 [3602879701896397 * 2 powi (- 55), 3602879701896397 * 2 powi (- 55),
      3602879701896397 * 2 powi (- 55)]
     [3602879701896397 * 2 powi (- 55), 3602879701896397 * 2 powi (- 55),
      3602879701896397 * 2 powi (- 55)] = 1 + 2 powi (- 52)"
proof -
  let ?c = "3602879701896397 * 2 powi (- 55) :: real"
  let ?s3 = "5404319552844596 * 2 powi (- 54) :: real"
  let ?avg = "7205759403792795 * 2 powi (- 56) :: real"
  let ?d = "- (2 powi (- 56)) :: real"
  let ?p = "2 powi (- 112) :: real"
  let ?s = "3 * 2 powi (- 112) :: real"
  let ?r = "7800463371553962 * 2 powi (- 108) :: real"
  let ?q = "6755399441055743 * 2 powi (- 163) :: real"
  have 1: "fadd 0 ?c = ?c"
    unfolding fadd_def using binary64_eqI[of "- 4" "0 + ?c" 7205759403792794] by (simp add: abs_if)
  have 2: "fadd ?c ?c = 2 * ?c"
    unfolding fadd_def using binary64_eqI[of "- 3" "?c + ?c" 7205759403792794] by (simp add: abs_if)
  have 3: "fadd (2 * ?c) ?c = ?s3"
    unfolding fadd_def using binary64_tieI[of "- 2" "2 * ?c + ?c" 5404319552844595] by (simp add: abs_if)
  have 4: "fdiv ?s3 3 = ?avg"
    unfolding fdiv_def using binary64_eqI[of "- 4" "?s3 / 3" 7205759403792795] by (simp add: abs_if)
  have 5: "fsub ?c ?avg = ?d"
    unfolding fsub_def using binary64_eqI[of "- 56" "?c - ?avg" "- (2 ^ 52)"] by (simp add: abs_if)
  have 6: "fmul ?d ?d = ?p"
    unfolding fmul_def using binary64_eqI[of "- 112" "?d * ?d" "2 ^ 52"] by (simp add: abs_if)
  have 7: "fadd 0 ?p = ?p"
    unfolding fadd_def using binary64_eqI[of "- 112" "0 + ?p" "2 ^ 52"] by (simp add: abs_if)
  have 8: "fadd ?p ?p = 2 * ?p"
    unfolding fadd_def using binary64_eqI[of "- 111" "?p + ?p" "2 ^ 52"] by (simp add: abs_if)
  have 9: "fadd (2 * ?p) ?p = ?s"
    unfolding fadd_def using binary64_eqI[of "- 111" "2 * ?p + ?p" "3 * 2 ^ 51"] by (simp add: abs_if)
  have 10: "fsqrt ?s = ?r"
    unfolding fsqrt_def using binary64_sqrt_eqI[of "- 56" ?s 7800463371553962]
    by (simp add: power2_eq_square)
  have 11: "fmul ?r ?r = ?q"
    unfolding fmul_def using binary64_eqI[of "- 111" "?r * ?r" 6755399441055743] by (simp add: abs_if)
  have 12: "fdiv ?s ?q = 1 + 2 powi (- 52)"
    unfolding fdiv_def using binary64_eqI[of 0 "?s / ?q" 4503599627370497] by (simp add: abs_if)
  have 13: "?s \<noteq> 0" by simp
  show ?thesis
    unfolding calculateCorrelation64_same3 Let_def 1 2 3 4 5 6 7 8 9 10 11 12 using 13 by simp
qed

lemma fmul_commute: "fmul x y = fmul y x"
  by (simp add: fmul_def mult.commute)

lemma correlationSums64_swap:
  "correlationSums64 ys xs b a n =
     (case correlationSums64 xs ys a b n of (c, v1, v2) \<Rightarrow> (c, v2, v1))"
  unfolding correlationSums64_def
  by (induction n) (simp_all add: Let_def fmul_commute split: prod.splits)

lemma calculateCorrelation64_commute:
  "calculateCorrelation64 xs ys = calculateCorrelation64 ys xs"
proof (cases "length xs = length ys \<and> xs \<noteq> []")
  case False
  then show ?thesis by (auto simp add: calculateCorrelation64_def)
next
  case True
  obtain c v1 v2 where
    xy: "correlationSums64 xs ys (calculateAverage64 xs) (calculateAverage64 ys) (length xs)
           = (c, v1, v2)"
    by (metis prod_cases3)
  then have
    yx: "correlationSums64 ys xs (calculateAverage64 ys) (calculateAverage64 xs) (length ys)
           = (c, v2, v1)"
    using True
    by (simp add: correlationSums64_swap[of ys xs "calculateAverage64 ys" "calculateAverage64 xs"])
  have l: "calculateCorrelation64 xs ys =
          (if v1 = 0 then 0 else if v2 = 0 then 0 else fdiv c (fmul (fsqrt v1) (fsqrt v2)))"
    using True xy by (auto simp add: calculateCorrelation64_def Let_def)
  have r: "calculateCorrelation64 ys xs =
          (if v2 = 0 then 0 else if v1 = 0 then 0 else fdiv c (fmul (fsqrt v2) (fsqrt v1)))"
    using True yx by (auto simp add: calculateCorrelation64_def Let_def)
  show ?thesis
    unfolding l r using fmul_commute[of "fsqrt v1" "fsqrt v2"] by simp
qed

text \<open>
  C4. Degenerate inputs. \<open>calculateCorrelation\<close> has no branch that raises, and it
  returns \<open>0\<close> when the lengths differ or a sequence is empty (lemma
  \<open>calculateCorrelation64_trivial\<close>). For a constant sequence the guard
  \<^verbatim>\<open>variance1 === 0 || variance2 === 0\<close> is to return \<open>0\<close>. It tests the
  accumulated sums of squared deviations for being exactly \<open>0\<close>, which they are in
  exact arithmetic (lemma \<open>calculateCorrelation_const_left\<close>) and in binary64
  arithmetic when the computed average is the constant itself (lemma
  \<open>calculateCorrelation64_constant_exact\<close>). The average of three times \<^verbatim>\<open>0.1\<close>
  is computed as \<^verbatim>\<open>0.10000000000000002\<close>: the sums of squares are
  \<open>3 \<sqdot> 2\<^sup>-\<^sup>1\<^sup>1\<^sup>2\<close>, the guard does not fire, and the result is \<open>1 + 2\<^sup>-\<^sup>5\<^sup>2\<close>, the
  number \<^verbatim>\<open>1.0000000000000002\<close>, not \<open>0\<close>. (\<open>binary64 (1 / 10)\<close> is the number
  that the literal \<^verbatim>\<open>0.1\<close> denotes.)
\<close>

theorem calculateCorrelation64_constant_tenths:
  "calculateCorrelation64 [binary64 (1 / 10), binary64 (1 / 10), binary64 (1 / 10)]
         [binary64 (1 / 10), binary64 (1 / 10), binary64 (1 / 10)] = 1 + 2 powi (- 52)"
  unfolding tenth by (rule constant_tenths)

text \<open>
  C9. The correlation is symmetric in its arguments: for sequences \<open>x\<close> and \<open>y\<close> of
  equal non-zero length that are not constant,
  \<open>calculateCorrelation x y = calculateCorrelation y x\<close>, in exact and in binary64
  arithmetic. (Lemmas \<open>calculateCorrelation_commute\<close> and
  \<open>calculateCorrelation64_commute\<close> show the equation for all arguments.)
\<close>

theorem calculateCorrelation_symmetric:
  assumes "length x = length y" and "x \<noteq> []"
    and "\<not> constantSeq x" and "\<not> constantSeq y"
  shows "calculateCorrelation x y = calculateCorrelation y x
         \<and> calculateCorrelation64 x y = calculateCorrelation64 y x"
  using calculateCorrelation_commute[of x y] calculateCorrelation64_commute[of x y] by simp

theorem calculateCorrelation_symmetric_witness:
  "length [1, 2, 4 :: real] = length [3, 1, 2 :: real] \<and> [1, 2, 4 :: real] \<noteq> []
   \<and> \<not> constantSeq [1, 2, 4] \<and> \<not> constantSeq [3, 1, 2]
   \<and> calculateCorrelation [1, 2, 4] [3, 1, 2] = calculateCorrelation [3, 1, 2] [1, 2, 4]
   \<and> calculateCorrelation64 [1, 2, 4] [3, 1, 2] = calculateCorrelation64 [3, 1, 2] [1, 2, 4]"
  using calculateCorrelation_symmetric[of "[1, 2, 4]" "[3, 1, 2]"]
  by (simp add: constantSeq_def)

end
